theory Spec2Isabelle
  imports Main "HOL-Library.Word" "HOL-Library.Sublist"
begin

unbundle bit_operations_syntax

section \<open>Item catalogue service: persistence, image store and HTTP handlers\<close>

text \<open>
  The development embeds the Go package \<open>app\<close>: the item repository
  (\<open>Insert\<close>, \<open>LoadFromDatabase\<close>, \<open>StoreImage\<close>) and the HTTP handlers
  (\<open>AddItem\<close>, \<open>GetItem\<close>, \<open>SearchItem\<close>, \<open>GetImage\<close> with \<open>storeImage\<close>
  and \<open>buildImagePath\<close>). Go strings are byte strings, so they are \<open>string\<close>
  (\<open>char list\<close>); image contents are lists of bytes.
\<close>

type_synonym byte = "8 word"

subsection \<open>Errors\<close>

text \<open>
  Go errors are values. \<open>sql.ErrNoRows\<close> and \<open>errImageNotFound\<close> are sentinel values
  that the code compares by identity, so each is a constructor of its own; every other
  error is known by its message.
\<close>

datatype error = ErrNoRows | ErrImageNotFound | Err string

fun Error :: "error \<Rightarrow> string" where
  "Error ErrNoRows = ''sql: no rows in result set''"
| "Error ErrImageNotFound = ''image not found''"
| "Error (Err m) = m"

subsection \<open>Library functions on paths (\<open>path/filepath\<close>, Unix separators)\<close>

text \<open>
  \<open>filepath.Clean\<close> reads the path element by element: empty elements and \<open>.\<close> are
  skipped, \<open>..\<close> removes the last real element of the output when there is one, is kept
  when the path is not rooted and there is nothing to remove, and is dropped at the root.
  The output buffer is kept here as the list of its elements.
\<close>

fun split_sep :: "string \<Rightarrow> string list" where
  "split_sep [] = [[]]"
| "split_sep (c # cs) =
     (if c = CHR ''/'' then [] # split_sep cs
      else (case split_sep cs of [] \<Rightarrow> [[c]] | w # ws \<Rightarrow> (c # w) # ws))"

fun join_sep :: "string list \<Rightarrow> string" where
  "join_sep [] = []"
| "join_sep [x] = x"
| "join_sep (x # y # zs) = x @ ''/'' @ join_sep (y # zs)"

definition clean_step :: "bool \<Rightarrow> string list \<Rightarrow> string \<Rightarrow> string list" where
  "clean_step rooted out e =
     (if e = [] \<or> e = ''.'' then out
      else if e = ''..'' then
        (if out \<noteq> [] \<and> last out \<noteq> ''..'' then butlast out
         else if \<not> rooted then out @ [''..'']
         else out)
      else out @ [e])"

definition Clean :: "string \<Rightarrow> string" where
  "Clean path =
     (if path = [] then ''.''
      else
        let rooted = (hd path = CHR ''/'');
            out = foldl (clean_step rooted) [] (split_sep path);
            s = (if rooted then ''/'' else []) @ join_sep out
        in if s = [] then ''.'' else s)"

text \<open>\<open>filepath.Join\<close> of two elements: leading empty elements are ignored, the rest is
  joined with the separator and cleaned; with nothing left the result is empty.\<close>

definition Join :: "string \<Rightarrow> string \<Rightarrow> string" where
  "Join a b =
     (if a \<noteq> [] then Clean (a @ ''/'' @ b)
      else if b \<noteq> [] then Clean b
      else [])"

text \<open>\<open>filepath.Base\<close>: the last element of the path, after trailing separators are
  stripped.\<close>

definition Base :: "string \<Rightarrow> string" where
  "Base path =
     (if path = [] then ''.''
      else
        let p = rev (dropWhile (\<lambda>c. c = CHR ''/'') (rev path));
            e = rev (takeWhile (\<lambda>c. c \<noteq> CHR ''/'') (rev p))
        in if e = [] then ''/'' else e)"

text \<open>
  \<open>filepath.Rel\<close> walks both cleaned paths element by element while the elements agree.
  \<open>rel_scan\<close> is that loop on the unread rests of base and target; it returns both rests
  and the base element at which the loop stopped (empty when one rest ran out).
\<close>

definition elem_of :: "string \<Rightarrow> string" where
  "elem_of s = takeWhile (\<lambda>c. c \<noteq> CHR ''/'') s"

definition after_elem :: "string \<Rightarrow> string" where
  "after_elem s = drop 1 (dropWhile (\<lambda>c. c \<noteq> CHR ''/'') s)"

function rel_scan :: "string \<Rightarrow> string \<Rightarrow> string \<times> string \<times> string" where
  "rel_scan b t =
     (if b = [] \<or> t = [] then (b, t, [])
      else if elem_of t \<noteq> elem_of b then (b, t, elem_of b)
      else rel_scan (after_elem b) (after_elem t))"
  by pat_completeness auto
termination
proof (relation "measure (\<lambda>(b, t). length b)")
  show "wf (measure (\<lambda>(b, t). length b))" by simp
next
  fix b t :: string
  assume "\<not> (b = [] \<or> t = [])"
  then obtain c cs where b: "b = c # cs" by (cases b) auto
  have "length (dropWhile (\<lambda>c. c \<noteq> CHR ''/'') b) \<le> length b"
    by (rule length_dropWhile_le)
  then have "length (after_elem b) < length b"
    unfolding after_elem_def b
    by (cases "c = CHR ''/''")
       (auto simp: less_Suc_eq_le intro: le_trans [OF length_dropWhile_le])
  then show "((after_elem b, after_elem t), (b, t)) \<in> measure (\<lambda>(b, t). length b)"
    by simp
qed

definition Rel :: "string \<Rightarrow> string \<Rightarrow> error + string" where
  "Rel basepath targpath =
     (let base0 = Clean basepath; targ = Clean targpath in
      if targ = base0 then Inr ''.''
      else
        let base = (if base0 = ''.'' then [] else base0);
            baseSlashed = (base \<noteq> [] \<and> hd base = CHR ''/'');
            targSlashed = (targ \<noteq> [] \<and> hd targ = CHR ''/'')
        in if baseSlashed \<noteq> targSlashed
           then Inl (Err (''Rel: can't make '' @ targpath @ '' relative to '' @ basepath))
           else
             (case rel_scan base targ of (brest, trest, belem) \<Rightarrow>
                if belem = ''..''
                then Inl (Err (''Rel: can't make '' @ targpath @ '' relative to '' @ basepath))
                else if brest \<noteq> []
                then Inr (''..'' @ concat (replicate (count_list brest CHR ''/'') ''/..'')
                          @ (if trest \<noteq> [] then ''/'' @ trest else []))
                else Inr trest))"

subsection \<open>Hex encoding (\<open>encoding/hex\<close>)\<close>

definition hextable :: string where
  "hextable = ''0123456789abcdef''"

definition EncodeToString :: "byte list \<Rightarrow> string" where
  "EncodeToString src =
     concat (map (\<lambda>v. [hextable ! unat (drop_bit 4 v), hextable ! unat (v AND 0x0f)]) src)"

subsection \<open>SQL \<open>LIKE\<close> as the storage engine (SQLite) evaluates it\<close>

text \<open>
  \<open>items.name LIKE ?\<close> calls the engine's \<open>likeFunc\<close>, which hands the pattern and
  the string, as C strings (they end at the first NUL byte), to \<open>patternCompare\<close> with
  \<open>%\<close> as \<open>matchAll\<close>, \<open>_\<close> as \<open>matchOne\<close>, no escape character and case folding
  of ASCII letters. Both are read character by character as UTF-8 by
  \<open>sqlite3Utf8Read\<close>: a lead byte from \<open>0xc0\<close> on takes every continuation byte that
  follows, and an overlong form, a surrogate and \<open>0xfffe\<close>, \<open>0xffff\<close> read as
  \<open>0xfffd\<close>. Characters are unsigned 32-bit values; reading at the end gives 0.
\<close>

type_synonym u32 = "32 word"

definition byte_val :: "char \<Rightarrow> u32" where
  "byte_val b = of_nat (of_char b)"

definition c_string :: "string \<Rightarrow> string" where
  \<comment> \<open>what a C function sees of a text value: the bytes before the first NUL\<close>
  "c_string s = takeWhile (\<lambda>b. b \<noteq> CHR 0x00) s"

definition sqlite3Utf8Trans1 :: "u32 list" where
  "sqlite3Utf8Trans1 =
     [0x00, 0x01, 0x02, 0x03, 0x04, 0x05, 0x06, 0x07,
      0x08, 0x09, 0x0a, 0x0b, 0x0c, 0x0d, 0x0e, 0x0f,
      0x10, 0x11, 0x12, 0x13, 0x14, 0x15, 0x16, 0x17,
      0x18, 0x19, 0x1a, 0x1b, 0x1c, 0x1d, 0x1e, 0x1f,
      0x00, 0x01, 0x02, 0x03, 0x04, 0x05, 0x06, 0x07,
      0x08, 0x09, 0x0a, 0x0b, 0x0c, 0x0d, 0x0e, 0x0f,
      0x00, 0x01, 0x02, 0x03, 0x04, 0x05, 0x06, 0x07,
      0x00, 0x01, 0x02, 0x03, 0x00, 0x01, 0x00, 0x00]"

fun read_continuation :: "u32 \<Rightarrow> string \<Rightarrow> u32 \<times> string" where
  \<comment> \<open>\<open>while( (*(*pz) & 0xc0)==0x80 ){ c = (c<<6) + (0x3f & *((*pz)++)); }\<close>\<close>
  "read_continuation c [] = (c, [])"
| "read_continuation c (b # z) =
     (if byte_val b AND 0xc0 = 0x80
      then read_continuation (push_bit 6 c + (0x3f AND byte_val b)) z
      else (c, b # z))"

definition Utf8Read :: "string \<Rightarrow> u32 \<times> string" where
  \<comment> \<open>the character read and the rest of the string\<close>
  "Utf8Read z =
     (case z of
        [] \<Rightarrow> (0, [])
      | b # z1 \<Rightarrow>
          if byte_val b \<ge> 0xc0 then
            (case read_continuation (sqlite3Utf8Trans1 ! (unat (byte_val b) - 0xc0)) z1 of
               (c, z2) \<Rightarrow>
                 (if c < 0x80 \<or> c AND 0xFFFFF800 = 0xD800 \<or> c AND 0xFFFFFFFE = 0xFFFE
                  then 0xFFFD else c, z2))
          else (byte_val b, z1))"

definition sqlite3Tolower :: "u32 \<Rightarrow> u32" where
  "sqlite3Tolower c = (if 0x41 \<le> c \<and> c \<le> 0x5a then c + 0x20 else c)"

definition sqlite3Toupper :: "u32 \<Rightarrow> u32" where
  "sqlite3Toupper c = (if 0x61 \<le> c \<and> c \<le> 0x7a then c - 0x20 else c)"

datatype match = SQLITE_MATCH | SQLITE_NOMATCH | SQLITE_NOWILDCARDMATCH

definition matchAll :: u32 where
  "matchAll = 0x25"

definition matchOne :: u32 where
  "matchOne = 0x5f"

text \<open>Reading a character other than 0 shortens the string; the loops below end for
  that reason.\<close>

lemma read_continuation_length: "length (snd (read_continuation c z)) \<le> length z"
proof (induction z arbitrary: c)
  case Nil
  then show ?case by simp
next
  case (Cons b z)
  show ?case
    using Cons [of "push_bit 6 c + (0x3f AND byte_val b)"] by (simp add: le_SucI)
qed

lemma Utf8Read_shorter: "Utf8Read z = (c, z1) \<Longrightarrow> z \<noteq> [] \<Longrightarrow> length z1 < length z"
proof -
  assume r: "Utf8Read z = (c, z1)" and "z \<noteq> []"
  then obtain b z0 where z: "z = b # z0" by (cases z) auto
  show ?thesis
  proof (cases "byte_val b \<ge> 0xc0")
    case True
    obtain c1 z2 where
      rc: "read_continuation (sqlite3Utf8Trans1 ! (unat (byte_val b) - 0xc0)) z0 = (c1, z2)"
      by (cases "read_continuation (sqlite3Utf8Trans1 ! (unat (byte_val b) - 0xc0)) z0")
    then have "length z2 \<le> length z0"
      using read_continuation_length
              [of "sqlite3Utf8Trans1 ! (unat (byte_val b) - 0xc0)" z0] by simp
    moreover have "z1 = z2" using r z True rc by (simp add: Utf8Read_def)
    ultimately show ?thesis using z by simp
  next
    case False
    then have "z1 = z0" using r z by (simp add: Utf8Read_def)
    then show ?thesis using z by simp
  qed
qed

lemma Utf8Read_Nil: "Utf8Read z = (c, z1) \<Longrightarrow> c \<noteq> 0 \<Longrightarrow> z \<noteq> []"
  by (auto simp: Utf8Read_def)

lemma Utf8Read_decreases: "(c, z1) = Utf8Read z \<Longrightarrow> c \<noteq> 0 \<Longrightarrow> length z1 < length z"
  using Utf8Read_shorter [of z c z1] Utf8Read_Nil [of z c z1] by simp

function skip_wildcards :: "string \<Rightarrow> string \<Rightarrow> (u32 \<times> string \<times> string) option" where
  \<comment> \<open>the loop after a \<open>%\<close>: further \<open>%\<close> are skipped, and for every \<open>_\<close> one
      character of the string is read (\<open>None\<close>: the string ran out there); it returns the
      first other character of the pattern with both rests\<close>
  "skip_wildcards zPattern zString =
     (case Utf8Read zPattern of
        (c, zPattern1) \<Rightarrow>
          if c = matchAll then skip_wildcards zPattern1 zString
          else if c = matchOne then
            (case Utf8Read zString of
               (c2, zString1) \<Rightarrow> if c2 = 0 then None else skip_wildcards zPattern1 zString1)
          else Some (c, zPattern1, zString))"
  by pat_completeness auto
termination
  by (relation "measure (\<lambda>(p, s). length p)")
     (auto simp: matchAll_def matchOne_def intro: Utf8Read_decreases)

lemma skip_wildcards_length:
  "skip_wildcards zPattern zString = Some (c, zPattern1, zString1) \<Longrightarrow>
   length zPattern1 \<le> length zPattern"
proof (induction zPattern zString rule: skip_wildcards.induct)
  case (1 zPattern zString)
  obtain c0 p0 where r: "Utf8Read zPattern = (c0, p0)" by (cases "Utf8Read zPattern")
  have le: "length p0 \<le> length zPattern"
  proof (cases "zPattern = []")
    case True
    with r show ?thesis by (simp add: Utf8Read_def)
  next
    case False
    with r show ?thesis using Utf8Read_shorter by fastforce
  qed
  show ?case
  proof (cases "c0 = matchAll")
    case True
    with "1.prems" r have "skip_wildcards p0 zString = Some (c, zPattern1, zString1)"
      by (simp add: skip_wildcards.simps [of zPattern])
    with "1.IH"(1) [OF r [symmetric] True] le show ?thesis by simp
  next
    case False
    show ?thesis
    proof (cases "c0 = matchOne")
      case True
      obtain c2 s1 where r2: "Utf8Read zString = (c2, s1)" by (cases "Utf8Read zString")
      with "1.prems" r False True have "c2 \<noteq> 0"
        and "skip_wildcards p0 s1 = Some (c, zPattern1, zString1)"
        by (auto simp: skip_wildcards.simps [of zPattern] split: if_splits)
      with "1.IH"(2) [OF r [symmetric] False True r2 [symmetric]] le
      show ?thesis by simp
    next
      case nm: False
      with "1.prems" r False have "zPattern1 = p0"
        by (simp add: skip_wildcards.simps [of zPattern])
      with le show ?thesis by simp
    qed
  qed
qed

lemma skip_after_read:
  "(c, y) = Utf8Read zPattern \<Longrightarrow> c \<noteq> 0 \<Longrightarrow>
   skip_wildcards y zString = Some (a, aa, b) \<Longrightarrow> length aa < length zPattern"
  using skip_wildcards_length [of y zString a aa b] Utf8Read_decreases [of c y zPattern]
  by simp

fun search_ascii :: "(string \<Rightarrow> match) \<Rightarrow> u32 list \<Rightarrow> string \<Rightarrow> match" where
  \<comment> \<open>the search for an ASCII character \<open>c\<close> after \<open>%\<close>: \<open>strcspn\<close> finds the next byte
      that is \<open>c\<close> in either case, and the rest of the pattern is tried behind it\<close>
  "search_ascii k zStop [] = SQLITE_NOWILDCARDMATCH"
| "search_ascii k zStop (b # z) =
     (if byte_val b \<in> set zStop then
        (case k z of
           SQLITE_NOMATCH \<Rightarrow> search_ascii k zStop z
         | bMatch \<Rightarrow> bMatch)
      else search_ascii k zStop z)"

function search_utf8 :: "(string \<Rightarrow> match) \<Rightarrow> u32 \<Rightarrow> string \<Rightarrow> match" where
  \<comment> \<open>the same search for a character from \<open>0x80\<close> on, character by character\<close>
  "search_utf8 k c zString =
     (case Utf8Read zString of
        (c2, zString1) \<Rightarrow>
          if c2 = 0 then SQLITE_NOWILDCARDMATCH
          else if c2 \<noteq> c then search_utf8 k c zString1
          else (case k zString1 of
                  SQLITE_NOMATCH \<Rightarrow> search_utf8 k c zString1
                | bMatch \<Rightarrow> bMatch))"
  by pat_completeness auto
termination
  by (relation "measure (\<lambda>(k, c, s). length s)")
     (auto intro: Utf8Read_decreases split: prod.splits)

function patternCompare :: "string \<Rightarrow> string \<Rightarrow> match" where
  "patternCompare zPattern zString =
     (case Utf8Read zPattern of
        (c, zPattern1) \<Rightarrow>
          if c = 0 then (if zString = [] then SQLITE_MATCH else SQLITE_NOMATCH)
          else if c = matchAll then
            (case skip_wildcards zPattern1 zString of
               None \<Rightarrow> SQLITE_NOWILDCARDMATCH
             | Some (c1, zPattern2, zString1) \<Rightarrow>
                 if c1 = 0 then SQLITE_MATCH
                 else if c1 < 0x80 then
                   search_ascii (\<lambda>z. patternCompare zPattern2 z)
                     [sqlite3Toupper c1, sqlite3Tolower c1] zString1
                 else search_utf8 (\<lambda>z. patternCompare zPattern2 z) c1 zString1)
          else
            (case Utf8Read zString of
               (c2, zString1) \<Rightarrow>
                 if c = c2 then patternCompare zPattern1 zString1
                 else if sqlite3Tolower c = sqlite3Tolower c2 \<and> c < 0x80 \<and> c2 < 0x80
                 then patternCompare zPattern1 zString1
                 else if c = matchOne \<and> c2 \<noteq> 0 then patternCompare zPattern1 zString1
                 else SQLITE_NOMATCH))"
  by pat_completeness auto
termination
  by (relation "measure (\<lambda>(p, s). length p)")
     (auto simp del: skip_wildcards.simps simp: matchAll_def
           intro: Utf8Read_decreases skip_after_read)

declare skip_wildcards.simps [simp del] search_utf8.simps [simp del]
  patternCompare.simps [simp del]

definition SQLITE_MAX_LIKE_PATTERN_LENGTH :: nat where
  "SQLITE_MAX_LIKE_PATTERN_LENGTH = 50000"

definition sql_like :: "string \<Rightarrow> string \<Rightarrow> error + bool" where
  \<comment> \<open>\<open>likeFunc\<close>: a pattern of more bytes than the limit is an error of the statement\<close>
  "sql_like pattern str =
     (if length pattern > SQLITE_MAX_LIKE_PATTERN_LENGTH
      then Inl (Err ''LIKE or GLOB pattern too complex'')
      else Inr (patternCompare (c_string pattern) (c_string str) = SQLITE_MATCH))"

subsection \<open>Data model\<close>

record Item =
  ID :: int
  Name :: string
  Category :: string
  Image :: string

text \<open>The two tables, as \<open>setupDB\<close> creates them: \<open>categories(id, name UNIQUE)\<close> and
  \<open>items(id, name, category_id, image_name)\<close>, both with \<open>AUTOINCREMENT\<close> keys.\<close>

record category_row =
  cat_id :: int
  cat_name :: string

record item_row =
  item_id :: int
  item_name :: string
  category_id :: int
  image_name :: string

text \<open>
  The JSON file behind \<open>fileName\<close> is known by what \<open>json.Decoder.Decode\<close> makes of it:
  it is missing, empty (\<open>Decode\<close> returns \<open>EOF\<close>), holds an item list, or holds something
  \<open>Decode\<close> rejects with the given error. The \<open>ID\<close> field is tagged \<open>json:"-"\<close>, so
  a stored list carries no ids.
\<close>

datatype json_file = NoFile | EmptyFile | ItemListFile "Item list" | Garbage error

record world =
  categories :: "category_row list"
  items :: "item_row list"
  categories_seq :: int
  items_seq :: int
  files :: "(string \<times> byte list) list"
  items_json :: json_file

text \<open>
  A request is what the handlers and \<open>net/http\<close> read of it: the method, the path of
  the URL (decoded, \<open>r.URL.Path\<close>) and its raw query, the header fields (under their
  canonical names), the form values, the file part \<open>image\<close> of a multipart form, the
  values of the path wildcards and the query parameters (\<open>r.URL.Query()\<close>).
\<close>

datatype form_file = FormFileErr error | ReadAllErr error | FileData "byte list"

record Request =
  Method :: string
  url_path :: string
  raw_query :: string
  req_header :: "(string \<times> string) list"
  form :: "(string \<times> string) list"
  image_file :: form_file
  path_values :: "(string \<times> string) list"
  url_query :: "(string \<times> string) list"

text \<open>
  A response is the status code (\<open>None\<close> until the header is written), the header
  fields and what was written to the body, write by write. A JSON document written by
  \<open>json.Encoder.Encode\<close> is kept as the value encoded; a \<open>nil\<close> slice is the empty list.
\<close>

datatype payload =
    AddItemResponse string
  | GetItemResponse "Item list"
  | ItemArray "Item list"

datatype chunk = Text string | JSON payload | FileContent "byte list"

record ResponseWriter =
  code :: "nat option"
  header :: "(string \<times> string) list"
  body :: "chunk list"

text \<open>
  What the code cannot decide is given by the environment: the digest function
  (\<open>crypto/sha256\<close>); for every call into the database, the file system or the
  response that can fail for reasons outside the model, the error it fails with
  (\<open>None\<close>: it does not fail); and what \<open>net/http\<close> answers when a file is served to a
  request with a \<open>Range\<close> or \<open>If-...\<close> header (206, 304, 412 or 416, by the file's
  modification time).
\<close>

record env =
  Sum256 :: "byte list \<Rightarrow> byte list"
  select_category_err :: "error option"
  insert_category_err :: "error option"
  last_insert_id_err :: "error option"
  insert_item_err :: "error option"
  open_file_err :: "error option"
  encode_file_err :: "error option"
  query_err :: "error option"
  scan_err :: "error option"
  write_file_err :: "error option"
  encode_response_err :: "error option"
  conditional_content :: "Request \<Rightarrow> byte list \<Rightarrow> ResponseWriter \<Rightarrow> ResponseWriter"

subsection \<open>Statements on the database\<close>

definition select_category_id :: "env \<Rightarrow> string \<Rightarrow> world \<Rightarrow> error + int" where
  \<comment> \<open>\<open>db.QueryRow("SELECT id FROM categories WHERE name = ?", name).Scan(&categoryID)\<close>\<close>
  "select_category_id e name w =
     (case select_category_err e of
        Some err \<Rightarrow> Inl err
      | None \<Rightarrow>
          (case find (\<lambda>c. cat_name c = name) (categories w) of
             None \<Rightarrow> Inl ErrNoRows
           | Some c \<Rightarrow> Inr (cat_id c)))"

definition insert_category :: "env \<Rightarrow> string \<Rightarrow> world \<Rightarrow> (error + int) \<times> world" where
  \<comment> \<open>\<open>db.ExecContext(ctx, "INSERT INTO categories (name) VALUES (?)", name)\<close>;
      the result carries the generated id\<close>
  "insert_category e name w =
     (case insert_category_err e of
        Some err \<Rightarrow> (Inl err, w)
      | None \<Rightarrow>
          if name \<in> set (map cat_name (categories w))
          then (Inl (Err ''UNIQUE constraint failed: categories.name''), w)
          else
            let new_id = categories_seq w + 1
            in (Inr new_id,
                w\<lparr>categories := categories w @ [\<lparr>cat_id = new_id, cat_name = name\<rparr>],
                  categories_seq := new_id\<rparr>))"

definition LastInsertId :: "env \<Rightarrow> int \<Rightarrow> error + int" where
  "LastInsertId e res = (case last_insert_id_err e of Some err \<Rightarrow> Inl err | None \<Rightarrow> Inr res)"

definition insert_item :: "env \<Rightarrow> string \<Rightarrow> int \<Rightarrow> string \<Rightarrow> world \<Rightarrow> error option \<times> world" where
  \<comment> \<open>\<open>INSERT INTO items (name, category_id, image_name) VALUES (?, ?, ?)\<close>\<close>
  "insert_item e name cid img w =
     (case insert_item_err e of
        Some err \<Rightarrow> (Some err, w)
      | None \<Rightarrow>
          let new_id = items_seq w + 1
          in (None,
              w\<lparr>items := items w @
                   [\<lparr>item_id = new_id, item_name = name, category_id = cid, image_name = img\<rparr>],
                items_seq := new_id\<rparr>))"

definition join_rows :: "world \<Rightarrow> item_row list \<Rightarrow> Item list" where
  \<comment> \<open>\<open>SELECT items.id, items.name, categories.name AS category, items.image_name
      FROM items JOIN categories ON items.category_id = categories.id\<close>, rows in the
      order of the items table\<close>
  "join_rows w rows =
     concat (map (\<lambda>i. map (\<lambda>c. \<lparr>ID = item_id i, Name = item_name i,
                                  Category = cat_name c, Image = image_name i\<rparr>)
                        (filter (\<lambda>c. cat_id c = category_id i) (categories w)))
                 rows)"

subsection \<open>The item repository\<close>

definition json_Decode :: "json_file \<Rightarrow> error + Item list" where
  "json_Decode f =
     (case f of
        NoFile \<Rightarrow> Inl (Err ''EOF'')
      | EmptyFile \<Rightarrow> Inl (Err ''EOF'')
      | ItemListFile xs \<Rightarrow> Inr xs
      | Garbage err \<Rightarrow> Inl err)"

definition store_item_list :: "env \<Rightarrow> Item \<Rightarrow> world \<Rightarrow> error option \<times> world" where
  \<comment> \<open>the second half of \<open>Insert\<close>: open or create the file, decode the list in it
      (\<open>EOF\<close> is ignored), append the item, truncate the file and encode the list
      again; when encoding fails the file stays truncated\<close>
  "store_item_list e item w =
     (case open_file_err e of
        Some err \<Rightarrow> (Some err, w)
      | None \<Rightarrow>
          let w1 = (if items_json w = NoFile then w\<lparr>items_json := EmptyFile\<rparr> else w) in
          (case (case json_Decode (items_json w1) of
                   Inl err \<Rightarrow> if Error err \<noteq> ''EOF'' then Inl err else Inr []
                 | Inr xs \<Rightarrow> Inr xs) of
             Inl err \<Rightarrow> (Some err, w1)
           | Inr itemList \<Rightarrow>
               (case encode_file_err e of
                  Some err \<Rightarrow> (Some err, w1\<lparr>items_json := EmptyFile\<rparr>)
                | None \<Rightarrow>
                    (None, w1\<lparr>items_json :=
                                ItemListFile (map (\<lambda>i. i\<lparr>ID := 0\<rparr>) (itemList @ [item]))\<rparr>))))"

definition Insert_item_and_file :: "env \<Rightarrow> Item \<Rightarrow> int \<Rightarrow> world \<Rightarrow> error option \<times> world" where
  \<comment> \<open>\<open>Insert\<close> once \<open>categoryID\<close> is known: the item row, then the JSON file\<close>
  "Insert_item_and_file e item categoryID w =
     (case insert_item e (Name item) categoryID (Image item) w of
        (Some err, w1) \<Rightarrow> (Some err, w1)
      | (None, w1) \<Rightarrow> store_item_list e item w1)"

definition Insert_after_select :: "env \<Rightarrow> Item \<Rightarrow> error + int \<Rightarrow> world \<Rightarrow> error option \<times> world" where
  \<comment> \<open>\<open>Insert\<close> from the test \<open>err == sql.ErrNoRows\<close> on, given what the
      \<open>SELECT\<close> returned\<close>
  "Insert_after_select e item sel w =
     (case sel of
        Inl err \<Rightarrow>
          if err = ErrNoRows then
            (case insert_category e (Category item) w of
               (Inl err1, w1) \<Rightarrow> (Some err1, w1)
             | (Inr result, w1) \<Rightarrow>
                 (case LastInsertId e result of
                    Inl err2 \<Rightarrow> (Some err2, w1)
                  | Inr categoryID \<Rightarrow> Insert_item_and_file e item categoryID w1))
          else (Some err, w)
      | Inr categoryID \<Rightarrow> Insert_item_and_file e item categoryID w)"

definition Insert :: "env \<Rightarrow> Item \<Rightarrow> world \<Rightarrow> error option \<times> world" where
  "Insert e item w = Insert_after_select e item (select_category_id e (Category item) w) w"

definition Query :: "env \<Rightarrow> (item_row \<Rightarrow> bool) \<Rightarrow> world \<Rightarrow> error + Item list" where
  \<comment> \<open>\<open>db.Query\<close> of the join, with the \<open>WHERE\<close> condition on the item row\<close>
  "Query e cond w =
     (case query_err e of
        Some err \<Rightarrow> Inl err
      | None \<Rightarrow> Inr (join_rows w (filter cond (items w))))"

definition scan_rows :: "env \<Rightarrow> Item list \<Rightarrow> error + Item list" where
  \<comment> \<open>the loop \<open>for rows.Next() { rows.Scan(...); items = append(items, item) }\<close>\<close>
  "scan_rows e rows =
     (case scan_err e of
        Some err \<Rightarrow> if rows = [] then Inr [] else Inl err
      | None \<Rightarrow> Inr rows)"

definition LoadFromDatabase :: "env \<Rightarrow> world \<Rightarrow> error + Item list" where
  "LoadFromDatabase e w =
     (case Query e (\<lambda>i. True) w of
        Inl err \<Rightarrow> Inl err
      | Inr rows \<Rightarrow> scan_rows e rows)"

definition Stat :: "world \<Rightarrow> string \<Rightarrow> bool" where
  \<comment> \<open>\<open>os.Stat(path)\<close> returns no error\<close>
  "Stat w path = (map_of (files w) path \<noteq> None)"

definition WriteFile :: "env \<Rightarrow> string \<Rightarrow> byte list \<Rightarrow> world \<Rightarrow> error option \<times> world" where
  "WriteFile e path content w =
     (case write_file_err e of
        Some err \<Rightarrow> (Some err, w)
      | None \<Rightarrow> (None, w\<lparr>files := (path, content) # filter (\<lambda>(p, _). p \<noteq> path) (files w)\<rparr>))"

definition StoreImage :: "env \<Rightarrow> string \<Rightarrow> string \<Rightarrow> byte list \<Rightarrow> world \<Rightarrow> error option \<times> world" where
  "StoreImage e dirPath fileName img w =
     (let filePath = Join dirPath fileName in
      case WriteFile e filePath img w of
        (Some err, w1) \<Rightarrow> (Some (Err (''failed to write image file: '' @ Error err)), w1)
      | (None, w1) \<Rightarrow> (None, w1))"

subsection \<open>Requests and responses (\<open>net/http\<close>)\<close>

definition NewRecorder :: ResponseWriter where
  "NewRecorder = \<lparr>code = None, header = [], body = []\<rparr>"

definition Header_Set :: "string \<Rightarrow> string \<Rightarrow> ResponseWriter \<Rightarrow> ResponseWriter" where
  "Header_Set k v rw = rw\<lparr>header := (k, v) # filter (\<lambda>(k', _). k' \<noteq> k) (header rw)\<rparr>"

definition WriteHeader :: "nat \<Rightarrow> ResponseWriter \<Rightarrow> ResponseWriter" where
  \<comment> \<open>only the first call sets the status\<close>
  "WriteHeader st rw = (case code rw of None \<Rightarrow> rw\<lparr>code := Some st\<rparr> | Some _ \<Rightarrow> rw)"

definition Write :: "chunk \<Rightarrow> ResponseWriter \<Rightarrow> ResponseWriter" where
  \<comment> \<open>a write before \<open>WriteHeader\<close> sends status 200 first\<close>
  "Write c rw = (let rw1 = WriteHeader 200 rw in rw1\<lparr>body := body rw1 @ [c]\<rparr>)"

definition http_Error :: "ResponseWriter \<Rightarrow> string \<Rightarrow> nat \<Rightarrow> ResponseWriter" where
  "http_Error rw msg st =
     Write (Text (msg @ [CHR 0x0A]))
       (WriteHeader st
         (Header_Set ''X-Content-Type-Options'' ''nosniff''
           (Header_Set ''Content-Type'' ''text/plain; charset=utf-8'' rw)))"

definition Encode :: "env \<Rightarrow> ResponseWriter \<Rightarrow> payload \<Rightarrow> error option \<times> ResponseWriter" where
  \<comment> \<open>\<open>json.NewEncoder(w).Encode(v)\<close>\<close>
  "Encode e rw v =
     (case encode_response_err e of
        Some err \<Rightarrow> (Some err, rw)
      | None \<Rightarrow> (None, Write (JSON v) rw))"

definition lookup_or_empty :: "(string \<times> string) list \<Rightarrow> string \<Rightarrow> string" where
  "lookup_or_empty kvs k = (case map_of kvs k of None \<Rightarrow> [] | Some v \<Rightarrow> v)"

definition FormValue :: "Request \<Rightarrow> string \<Rightarrow> string" where
  "FormValue r k = lookup_or_empty (form r) k"

definition PathValue :: "Request \<Rightarrow> string \<Rightarrow> string" where
  "PathValue r k = lookup_or_empty (path_values r) k"

definition Query_Get :: "Request \<Rightarrow> string \<Rightarrow> string" where
  "Query_Get r k = lookup_or_empty (url_query r) k"

definition Header_Get :: "Request \<Rightarrow> string \<Rightarrow> string" where
  "Header_Get r k = lookup_or_empty (req_header r) k"

text \<open>
  \<open>http.ServeFile(w, r, name)\<close> first refuses a request whose URL path has a \<open>..\<close>
  element (\<open>containsDotDot\<close>: the path is cut at \<open>/\<close> and \<open>\\<close>). \<open>serveFile\<close> then
  redirects a URL path ending in \<open>/index.html\<close> to \<open>./\<close>, opens the file (404 when
  there is none) and hands it to \<open>serveContent\<close>. That one checks the preconditions of
  the request and its \<open>Range\<close>; with none of these headers it writes status 200 and,
  unless the method is \<open>HEAD\<close>, the content, kept here as one chunk. The files of the
  model are regular files, and the header fields \<open>serveContent\<close> sets (type, length,
  modification time) are not kept.
\<close>

fun split_slashes :: "string \<Rightarrow> string list" where
  "split_slashes [] = [[]]"
| "split_slashes (c # cs) =
     (if c = CHR ''/'' \<or> c = CHR 0x5C then [] # split_slashes cs
      else (case split_slashes cs of [] \<Rightarrow> [[c]] | w # ws \<Rightarrow> (c # w) # ws))"

definition containsDotDot :: "string \<Rightarrow> bool" where
  "containsDotDot v = (''..'' \<in> set (split_slashes v))"

definition localRedirect :: "ResponseWriter \<Rightarrow> Request \<Rightarrow> string \<Rightarrow> ResponseWriter" where
  "localRedirect rw r newPath =
     WriteHeader 301
       (Header_Set ''Location''
          (if raw_query r \<noteq> [] then newPath @ ''?'' @ raw_query r else newPath) rw)"

definition has_precondition :: "Request \<Rightarrow> bool" where
  "has_precondition r =
     list_ex (\<lambda>k. Header_Get r k \<noteq> [])
       [''If-Match'', ''If-Unmodified-Since'', ''If-None-Match'', ''If-Modified-Since'',
        ''Range'']"

definition serveContent :: "env \<Rightarrow> ResponseWriter \<Rightarrow> Request \<Rightarrow> byte list \<Rightarrow> ResponseWriter" where
  "serveContent e rw r content =
     (if has_precondition r then conditional_content e r content rw
      else if Method r = ''HEAD'' then WriteHeader 200 rw
      else Write (FileContent content) (WriteHeader 200 rw))"

definition ServeFile :: "env \<Rightarrow> ResponseWriter \<Rightarrow> Request \<Rightarrow> world \<Rightarrow> string \<Rightarrow> ResponseWriter" where
  "ServeFile e rw r w name =
     (if containsDotDot (url_path r) then http_Error rw ''invalid URL path'' 400
      else if suffix ''/index.html'' (url_path r) then localRedirect rw r ''./''
      else
        (case map_of (files w) name of
           None \<Rightarrow> http_Error rw ''404 page not found'' 404
         | Some content \<Rightarrow> serveContent e rw r content))"

subsection \<open>The handlers\<close>

record Handlers =
  imgDirPath :: string

record AddItemRequest =
  req_Name :: string
  req_Category :: string
  req_Image :: "byte list"

definition parseAddItemRequest :: "Request \<Rightarrow> error + AddItemRequest" where
  "parseAddItemRequest r =
     (let name = FormValue r ''name''; category = FormValue r ''category'' in
      case image_file r of
        FormFileErr err \<Rightarrow> Inl (Err (''failed to get image: '' @ Error err))
      | ReadAllErr err \<Rightarrow> Inl (Err (''failed to read image: '' @ Error err))
      | FileData imageData \<Rightarrow>
          if name = [] then Inl (Err ''name is required'')
          else if category = [] then Inl (Err ''category is requred'')
          else if length imageData = 0 then Inl (Err ''image is requred'')
          else Inr \<lparr>req_Name = name, req_Category = category, req_Image = imageData\<rparr>)"

definition storeImage :: "env \<Rightarrow> Handlers \<Rightarrow> byte list \<Rightarrow> world \<Rightarrow> (error + string) \<times> world" where
  "storeImage e s img w =
     (let hashedValue = EncodeToString (Sum256 e img);
          fileName = hashedValue @ ''.jpg'';
          filePath = Join (imgDirPath s) fileName
      in if Stat w filePath then (Inr filePath, w)
         else (case StoreImage e (imgDirPath s) fileName img w of
                 (Some err, w1) \<Rightarrow> (Inl err, w1)
               | (None, w1) \<Rightarrow> (Inr filePath, w1)))"

definition AddItem :: "env \<Rightarrow> Handlers \<Rightarrow> ResponseWriter \<Rightarrow> Request \<Rightarrow> world \<Rightarrow> ResponseWriter \<times> world" where
  "AddItem e s rw r w =
     (case parseAddItemRequest r of
        Inl err \<Rightarrow> (http_Error rw (Error err) 400, w)
      | Inr req \<Rightarrow>
          (case storeImage e s (req_Image req) w of
             (Inl err, w1) \<Rightarrow> (http_Error rw (Error err) 500, w1)
           | (Inr fileName, w1) \<Rightarrow>
               let imageFileName = Base fileName;
                   item = \<lparr>ID = 0, Name = req_Name req, Category = req_Category req,
                           Image = imageFileName\<rparr>;
                   message = ''item received: '' @ Name item
               in (case Insert e item w1 of
                     (Some err, w2) \<Rightarrow> (http_Error rw (Error err) 500, w2)
                   | (None, w2) \<Rightarrow>
                       (case Encode e rw (AddItemResponse message) of
                          (Some err, rw1) \<Rightarrow> (http_Error rw1 (Error err) 500, w2)
                        | (None, rw1) \<Rightarrow> (rw1, w2)))))"

definition GetItem :: "env \<Rightarrow> ResponseWriter \<Rightarrow> world \<Rightarrow> ResponseWriter" where
  \<comment> \<open>the branch for a failed load has no \<open>return\<close>: the handler goes on with
      \<open>items = nil\<close>\<close>
  "GetItem e rw w =
     (let (its, rw1) =
            (case LoadFromDatabase e w of
               Inl err \<Rightarrow> ([], http_Error rw (Error err) 500)
             | Inr its \<Rightarrow> (its, rw))
      in case Encode e rw1 (GetItemResponse its) of
           (Some err, rw2) \<Rightarrow> http_Error rw2 (Error err) 500
         | (None, rw2) \<Rightarrow> rw2)"

definition SearchItem :: "env \<Rightarrow> ResponseWriter \<Rightarrow> Request \<Rightarrow> world \<Rightarrow> ResponseWriter" where
  \<comment> \<open>a row is read when \<open>LIKE\<close> holds of its name. When \<open>LIKE\<close> fails, the step of
      the statement fails, \<open>rows.Next()\<close> is false and, \<open>rows.Err()\<close> not being looked at,
      no row is read\<close>
  "SearchItem e rw r w =
     (let keyword = Query_Get r ''keyword'' in
      if keyword = [] then http_Error rw ''Keyword is required'' 400
      else
        (case Query e (\<lambda>i. sql_like (''%'' @ keyword @ ''%'') (item_name i) = Inr True) w of
           Inl err \<Rightarrow> http_Error rw (Error err) 500
         | Inr rows \<Rightarrow>
             (case scan_rows e rows of
                Inl err \<Rightarrow> http_Error rw (Error err) 500
              | Inr its \<Rightarrow>
                  (case Encode e (Header_Set ''Content-Type'' ''application/json'' rw)
                          (ItemArray its) of
                     (Some err, rw1) \<Rightarrow> http_Error rw1 ''Failed to encode response'' 500
                   | (None, rw1) \<Rightarrow> rw1))))"

record GetImageRequest =
  FileName :: string

definition parseGetImageRequest :: "Request \<Rightarrow> error + GetImageRequest" where
  "parseGetImageRequest r =
     (let req = \<lparr>FileName = PathValue r ''filename''\<rparr> in
      if FileName req = [] then Inl (Err ''filename is required'') else Inr req)"

definition buildImagePath :: "Handlers \<Rightarrow> world \<Rightarrow> string \<Rightarrow> string \<times> error option" where
  "buildImagePath s w imageFileName =
     (let imgPath = Join (imgDirPath s) (Clean imageFileName) in
      if (case Rel (imgDirPath s) imgPath of Inl err \<Rightarrow> True | Inr rel \<Rightarrow> prefix ''..'' rel)
      then ([], Some (Err (''invalid image path: '' @ imgPath)))
      else if \<not> suffix ''.jpg'' imgPath \<and> \<not> suffix ''.jpeg'' imgPath
      then ([], Some (Err (''image path does not end with .jpg or .jpeg: '' @ imgPath)))
      else if \<not> Stat w imgPath then (imgPath, Some ErrImageNotFound)
      else (imgPath, None))"

definition GetImage :: "env \<Rightarrow> Handlers \<Rightarrow> ResponseWriter \<Rightarrow> Request \<Rightarrow> world \<Rightarrow> ResponseWriter" where
  "GetImage e s rw r w =
     (case parseGetImageRequest r of
        Inl err \<Rightarrow> http_Error rw (Error err) 400
      | Inr req \<Rightarrow>
          (case buildImagePath s w (FileName req) of
             (imgPath, Some err) \<Rightarrow>
               if err \<noteq> ErrImageNotFound then http_Error rw (Error err) 400
               else ServeFile e rw r w (Join (imgDirPath s) ''default.jpg'')
           | (imgPath, None) \<Rightarrow> ServeFile e rw r w imgPath))"

subsection \<open>Conditions and values used in the statements\<close>

definition no_faults :: "env \<Rightarrow> bool" where
  "no_faults e =
     (select_category_err e = None \<and> insert_category_err e = None \<and>
      last_insert_id_err e = None \<and> insert_item_err e = None \<and>
      open_file_err e = None \<and> encode_file_err e = None \<and>
      query_err e = None \<and> scan_err e = None \<and>
      write_file_err e = None \<and> encode_response_err e = None)"

definition db_steps_ok :: "env \<Rightarrow> bool" where
  "db_steps_ok e =
     (select_category_err e = None \<and> insert_category_err e = None \<and>
      last_insert_id_err e = None \<and> insert_item_err e = None)"

definition file_step_fails :: "env \<Rightarrow> world \<Rightarrow> bool" where
  \<comment> \<open>opening, decoding or encoding the JSON file fails\<close>
  "file_step_fails e w =
     (open_file_err e \<noteq> None \<or>
      (case items_json w of Garbage g \<Rightarrow> Error g \<noteq> ''EOF'' | _ \<Rightarrow> False) \<or>
      encode_file_err e \<noteq> None)"

definition db_consistent :: "world \<Rightarrow> bool" where
  \<comment> \<open>what the schema guarantees: primary keys, the unique category name, generated ids
      below the sequence, and the foreign key of items\<close>
  "db_consistent w =
     (distinct (map cat_id (categories w)) \<and>
      distinct (map cat_name (categories w)) \<and>
      (\<forall>c \<in> set (categories w). cat_id c \<le> categories_seq w) \<and>
      distinct (map item_id (items w)) \<and>
      (\<forall>i \<in> set (items w). item_id i \<le> items_seq w) \<and>
      (\<forall>i \<in> set (items w). category_id i \<in> set (map cat_id (categories w))))"

definition valid_request :: "Request \<Rightarrow> bool" where
  \<comment> \<open>a name, a category and a readable image part that is not empty\<close>
  "valid_request r =
     (FormValue r ''name'' \<noteq> [] \<and> FormValue r ''category'' \<noteq> [] \<and>
      (case image_file r of FileData d \<Rightarrow> d \<noteq> [] | _ \<Rightarrow> False))"

definition image_bytes :: "Request \<Rightarrow> byte list" where
  "image_bytes r = (case image_file r of FileData d \<Rightarrow> d | _ \<Rightarrow> [])"

definition content_name :: "env \<Rightarrow> byte list \<Rightarrow> string" where
  \<comment> \<open>the hex digest of the bytes followed by \<open>.jpg\<close>\<close>
  "content_name e img = EncodeToString (Sum256 e img) @ ''.jpg''"

definition plain_name :: "string \<Rightarrow> bool" where
  \<comment> \<open>one path element: not empty, no separator, neither \<open>.\<close> nor \<open>..\<close>\<close>
  "plain_name f = (f \<noteq> [] \<and> CHR ''/'' \<notin> set f \<and> f \<noteq> ''.'' \<and> f \<noteq> ''..'')"

definition new_item_row :: "world \<Rightarrow> Item \<Rightarrow> int \<Rightarrow> item_row" where
  "new_item_row w item cid =
     \<lparr>item_id = items_seq w + 1, item_name = Name item, category_id = cid,
      image_name = Image item\<rparr>"

definition new_category_row :: "world \<Rightarrow> string \<Rightarrow> category_row" where
  "new_category_row w name = \<lparr>cat_id = categories_seq w + 1, cat_name = name\<rparr>"

definition inserted_item :: "world \<Rightarrow> string \<Rightarrow> string \<Rightarrow> string \<Rightarrow> Item" where
  \<comment> \<open>the item as \<open>LoadFromDatabase\<close> returns it after it was inserted into \<open>w\<close>\<close>
  "inserted_item w name category img =
     \<lparr>ID = items_seq w + 1, Name = name, Category = category, Image = img\<rparr>"

definition matching :: "string \<Rightarrow> string \<Rightarrow> string \<Rightarrow> Item list \<Rightarrow> Item list" where
  "matching name category img xs =
     filter (\<lambda>i. Name i = name \<and> Category i = category \<and> Image i = img) xs"

definition outside_dir :: "string \<Rightarrow> string \<Rightarrow> bool" where
  "outside_dir dir name =
     (case Rel dir (Join dir (Clean name)) of Inl err \<Rightarrow> True | Inr rel \<Rightarrow> prefix ''..'' rel)"

definition image_path :: "Handlers \<Rightarrow> string \<Rightarrow> string" where
  "image_path s name = Join (imgDirPath s) (Clean name)"

definition passes_path_checks :: "Handlers \<Rightarrow> string \<Rightarrow> bool" where
  \<comment> \<open>the two checks of \<open>buildImagePath\<close> as the code makes them: \<open>filepath.Rel\<close>
      succeeds with a result that does not start with the two characters \<open>..\<close>, and the
      joined path ends in \<open>.jpg\<close> or \<open>.jpeg\<close>\<close>
  "passes_path_checks s name =
     (\<not> outside_dir (imgDirPath s) name \<and>
      (suffix ''.jpg'' (image_path s name) \<or> suffix ''.jpeg'' (image_path s name)))"

text \<open>
  The specification's notion of a syntactically valid file name, in its own words: the
  name is lexically contained in the image directory (the relative path from the
  directory to the cleaned name joined with it does not begin with a parent-directory
  element) and ends in an accepted suffix.
\<close>

definition lexically_contained :: "string \<Rightarrow> string \<Rightarrow> bool" where
  "lexically_contained dir name =
     (case Rel dir (Join dir (Clean name)) of
        Inl err \<Rightarrow> False
      | Inr rel \<Rightarrow> hd (split_sep rel) \<noteq> ''..'')"



definition has_file_chunk :: "ResponseWriter \<Rightarrow> bool" where
  "has_file_chunk rw = list_ex (\<lambda>c. case c of FileContent _ \<Rightarrow> True | _ \<Rightarrow> False) (body rw)"

subsection \<open>Example values\<close>

text \<open>The digest of the example environment is a stand-in: the first four bytes; so is
  its answer to a conditional request: 304 with no body.\<close>

definition example_env :: env where
  "example_env =
     \<lparr>Sum256 = (\<lambda>b. take 4 b),
      select_category_err = None, insert_category_err = None, last_insert_id_err = None,
      insert_item_err = None, open_file_err = None, encode_file_err = None,
      query_err = None, scan_err = None, write_file_err = None,
      encode_response_err = None,
      conditional_content = (\<lambda>r content rw. WriteHeader 304 rw)\<rparr>"

definition locked_env :: env where
  "locked_env = example_env\<lparr>select_category_err := Some (Err ''database is locked'')\<rparr>"

definition readonly_env :: env where
  "readonly_env = example_env\<lparr>open_file_err := Some (Err ''permission denied'')\<rparr>"

definition empty_world :: world where
  "empty_world =
     \<lparr>categories = [], items = [], categories_seq = 0, items_seq = 0, files = [],
      items_json = NoFile\<rparr>"

definition example_handlers :: Handlers where
  "example_handlers = \<lparr>imgDirPath = ''images''\<rparr>"

definition example_image :: "byte list" where
  "example_image = [1, 2, 3]"

definition example_path :: string where
  "example_path = ''images/010203.jpg''"

definition stored_world :: world where
  "stored_world = empty_world\<lparr>files := [(example_path, example_image)]\<rparr>"

definition secret_world :: world where
  "secret_world =
     empty_world\<lparr>files := [(''secret.jpg'', [7, 7, 7]), (''images/default.jpg'', [9])]\<rparr>"

definition iphone_item :: Item where
  "iphone_item = \<lparr>ID = 0, Name = ''used iPhone 16e'', Category = ''phone'', Image = ''a.jpg''\<rparr>"

definition pixel_item :: Item where
  "pixel_item = \<lparr>ID = 0, Name = ''Pixel 8'', Category = ''phone'', Image = ''b.jpg''\<rparr>"

definition phone_world :: world where
  "phone_world =
     \<lparr>categories = [\<lparr>cat_id = 1, cat_name = ''phone''\<rparr>],
      items = [\<lparr>item_id = 1, item_name = ''used iPhone 16e'', category_id = 1,
                image_name = ''a.jpg''\<rparr>],
      categories_seq = 1, items_seq = 1, files = [],
      items_json = ItemListFile [iphone_item]\<rparr>"

definition two_items_world :: world where
  "two_items_world =
     \<lparr>categories = [\<lparr>cat_id = 1, cat_name = ''phone''\<rparr>],
      items = [\<lparr>item_id = 1, item_name = ''used iPhone 16e'', category_id = 1,
                image_name = ''a.jpg''\<rparr>,
               \<lparr>item_id = 2, item_name = ''Pixel 8'', category_id = 1,
                image_name = ''b.jpg''\<rparr>],
      categories_seq = 1, items_seq = 2, files = [],
      items_json = ItemListFile [iphone_item, pixel_item]\<rparr>"

definition raced_world :: world where
  \<comment> \<open>the world after the first of two racing inserts has run to its end\<close>
  "raced_world =
     snd (Insert_after_select example_env iphone_item
            (select_category_id example_env (Category iphone_item) empty_world) empty_world)"


definition add_request :: "string \<Rightarrow> string \<Rightarrow> form_file \<Rightarrow> Request" where
  "add_request name category img =
     \<lparr>Method = ''POST'', url_path = ''/items'', raw_query = [], req_header = [],
      form = [(''name'', name), (''category'', category)], image_file = img,
      path_values = [], url_query = []\<rparr>"

definition iphone_request :: Request where
  "iphone_request = add_request ''used iPhone 16e'' ''phone'' (FileData example_image)"

definition image_request :: "string \<Rightarrow> Request" where
  \<comment> \<open>\<open>GET /images/{filename}\<close>, the file name percent-encoded on the wire\<close>
  "image_request name =
     \<lparr>Method = ''GET'', url_path = ''/images/'' @ name, raw_query = [], req_header = [],
      form = [], image_file = FormFileErr (Err ''http: no such file''),
      path_values = [(''filename'', name)], url_query = []\<rparr>"

definition search_request :: "string \<Rightarrow> Request" where
  \<comment> \<open>\<open>GET /search?keyword=...\<close>; the raw query is not read by the handler\<close>
  "search_request keyword =
     \<lparr>Method = ''GET'', url_path = ''/search'', raw_query = [], req_header = [],
      form = [], image_file = FormFileErr (Err ''http: no such file''),
      path_values = [], url_query = [(''keyword'', keyword)]\<rparr>"

section \<open>Properties\<close>

subsection \<open>Responses\<close>

lemma code_http_Error_fresh [simp]: "code (http_Error NewRecorder msg st) = Some st"
  by (simp add: http_Error_def Write_def WriteHeader_def Header_Set_def NewRecorder_def)

lemma body_http_Error_fresh [simp]:
  "body (http_Error NewRecorder msg st) = [Text (msg @ [CHR 0x0A])]"
  by (simp add: http_Error_def Write_def WriteHeader_def Header_Set_def NewRecorder_def)

lemma code_Write_fresh [simp]: "code (Write c NewRecorder) = Some 200"
  by (simp add: Write_def WriteHeader_def NewRecorder_def)

lemma body_Write_fresh [simp]: "body (Write c NewRecorder) = [c]"
  by (simp add: Write_def WriteHeader_def NewRecorder_def)

subsection \<open>Validation of add-item requests\<close>

lemma parseAddItemRequest_valid:
  "valid_request r \<Longrightarrow>
   parseAddItemRequest r =
     Inr \<lparr>req_Name = FormValue r ''name'', req_Category = FormValue r ''category'',
          req_Image = image_bytes r\<rparr>"
  by (auto simp: valid_request_def parseAddItemRequest_def image_bytes_def
           split: form_file.splits)

lemma parseAddItemRequest_invalid:
  "\<not> valid_request r \<Longrightarrow> \<exists>err. parseAddItemRequest r = Inl err"
  by (auto simp: valid_request_def parseAddItemRequest_def Let_def split: form_file.splits)

text \<open>
  C7. A request to add an item that fails validation (empty name, empty category, or
  an image part that is missing, unreadable or empty) is answered with status 400 and
  one line of text, and the database, the image directory and the JSON file are left
  as they were.
\<close>

theorem AddItem_invalid_no_side_effects:
  "\<not> valid_request r \<Longrightarrow>
   snd (AddItem e s NewRecorder r w) = w \<and>
   code (fst (AddItem e s NewRecorder r w)) = Some 400 \<and>
   (\<exists>err. body (fst (AddItem e s NewRecorder r w)) = [Text (Error err @ [CHR 0x0A])])"
proof -
  assume "\<not> valid_request r"
  then obtain err where "parseAddItemRequest r = Inl err"
    using parseAddItemRequest_invalid by blast
  then have "AddItem e s NewRecorder r w = (http_Error NewRecorder (Error err) 400, w)"
    by (simp add: AddItem_def)
  then show ?thesis by auto
qed

theorem AddItem_invalid_no_side_effects_witness:
  "\<not> valid_request (add_request [] ''phone'' (FileData [1, 2, 3])) \<and>
   snd (AddItem example_env example_handlers NewRecorder
          (add_request [] ''phone'' (FileData [1, 2, 3])) empty_world) = empty_world \<and>
   code (fst (AddItem example_env example_handlers NewRecorder
          (add_request [] ''phone'' (FileData [1, 2, 3])) empty_world)) = Some 400"
  using AddItem_invalid_no_side_effects
          [of "add_request [] ''phone'' (FileData [1, 2, 3])" example_env example_handlers
              empty_world]
  by (simp add: valid_request_def add_request_def FormValue_def lookup_or_empty_def)

subsection \<open>The image store\<close>

lemma Stat_WriteFile:
  "WriteFile e path content w = (None, w1) \<Longrightarrow> Stat w1 path"
  by (cases "write_file_err e") (auto simp: WriteFile_def Stat_def)

lemma StoreImage_ok:
  "StoreImage e dir name img w = (None, w1) \<Longrightarrow> Stat w1 (Join dir name)"
proof -
  assume a: "StoreImage e dir name img w = (None, w1)"
  obtain r w2 where wf: "WriteFile e (Join dir name) img w = (r, w2)"
    by (cases "WriteFile e (Join dir name) img w")
  with a have "r = None" "w2 = w1"
    by (cases r; simp add: StoreImage_def)+
  with wf show ?thesis using Stat_WriteFile by blast
qed

lemma storeImage_result:
  assumes "storeImage e s img w = (Inr p, w1)"
  shows "p = Join (imgDirPath s) (content_name e img) \<and> Stat w1 p"
proof (cases "Stat w (Join (imgDirPath s) (content_name e img))")
  case True
  then show ?thesis using assms by (simp add: storeImage_def content_name_def)
next
  case False
  obtain r w2 where st: "StoreImage e (imgDirPath s) (content_name e img) img w = (r, w2)"
    by (cases "StoreImage e (imgDirPath s) (content_name e img) img w")
  with False assms have "r = None \<and> w2 = w1 \<and> p = Join (imgDirPath s) (content_name e img)"
    by (cases r) (simp_all add: storeImage_def content_name_def)
  with st show ?thesis using StoreImage_ok by blast
qed

lemma storeImage_existing:
  "Stat w (Join (imgDirPath s) (content_name e img)) \<Longrightarrow>
   storeImage e s img w = (Inr (Join (imgDirPath s) (content_name e img)), w)"
  by (simp add: storeImage_def content_name_def)

lemma content_name_cong:
  "Sum256 e' = Sum256 e \<Longrightarrow> content_name e' img = content_name e img"
  unfolding content_name_def
  by (rule arg_cong [where f = "\<lambda>f. EncodeToString (f img) @ ''.jpg''"])

text \<open>
  C3. Storing the same bytes twice is idempotent. When a file already exists at the
  path derived from the bytes, \<open>storeImage\<close> returns that path with no error and leaves
  the world as it is (nothing is written). So after a first call that returned a path,
  a second call with the same bytes returns the same path and changes nothing, whatever
  would happen to a write.
\<close>

theorem storeImage_idempotent:
  "(Stat w (Join (imgDirPath s) (content_name e img)) \<longrightarrow>
      storeImage e s img w = (Inr (Join (imgDirPath s) (content_name e img)), w)) \<and>
   (storeImage e s img w = (Inr p, w1) \<and> Sum256 e' = Sum256 e \<longrightarrow>
      p = Join (imgDirPath s) (content_name e img) \<and>
      storeImage e' s img w1 = (Inr p, w1))"
proof (intro conjI impI)
  assume "Stat w (Join (imgDirPath s) (content_name e img))"
  then show "storeImage e s img w = (Inr (Join (imgDirPath s) (content_name e img)), w)"
    by (rule storeImage_existing)
next
  assume a: "storeImage e s img w = (Inr p, w1) \<and> Sum256 e' = Sum256 e"
  then show p: "p = Join (imgDirPath s) (content_name e img)"
    using storeImage_result by blast
  have "Stat w1 p" using a storeImage_result by blast
  moreover have c: "content_name e' img = content_name e img"
    using a content_name_cong by blast
  ultimately have "Stat w1 (Join (imgDirPath s) (content_name e' img))"
    using p by (simp only:)
  then have "storeImage e' s img w1 = (Inr (Join (imgDirPath s) (content_name e' img)), w1)"
    by (rule storeImage_existing)
  then show "storeImage e' s img w1 = (Inr p, w1)"
    using p c by (simp only:)
qed

lemma content_name_example: "content_name example_env example_image = ''010203.jpg''"
  by (simp add: content_name_def example_env_def example_image_def EncodeToString_def
        hextable_def)

lemma Join_example:
  "Join (imgDirPath example_handlers) (content_name example_env example_image) = example_path"
  unfolding content_name_example
  by (simp add: Join_def Clean_def clean_step_def example_handlers_def example_path_def)

lemma storeImage_example:
  "storeImage example_env example_handlers example_image empty_world =
     (Inr example_path, stored_world)"
  by (simp add: storeImage_def StoreImage_def WriteFile_def Stat_def example_env_def
      stored_world_def empty_world_def example_handlers_def example_image_def example_path_def
      EncodeToString_def hextable_def Join_def Clean_def clean_step_def Let_def)

theorem storeImage_idempotent_witness:
  "Stat stored_world
     (Join (imgDirPath example_handlers) (content_name example_env example_image)) \<and>
   storeImage example_env example_handlers example_image empty_world =
     (Inr example_path, stored_world) \<and>
   storeImage example_env example_handlers example_image stored_world =
     (Inr example_path, stored_world)"
proof -
  have st: "Stat stored_world
              (Join (imgDirPath example_handlers) (content_name example_env example_image))"
    unfolding Join_example by (simp add: Stat_def stored_world_def)
  show ?thesis
    using st storeImage_example
      storeImage_idempotent [of stored_world example_handlers example_env example_image
        example_path stored_world example_env]
      storeImage_idempotent [of empty_world example_handlers example_env example_image
        example_path stored_world example_env]
    by (simp only: Join_example simp_thms)
qed

subsection \<open>Listing the items\<close>

text \<open>
  C6. When loading the items fails, \<open>GetItem\<close> reports status 500 with the error text
  and then, having no \<open>return\<close> in that branch, goes on to encode the (empty) item list
  into the body. Here the query fails with "database is locked" on the empty database:
  the body holds the error line followed by a JSON document.
\<close>

theorem GetItem_writes_after_error:
  "code (GetItem (example_env\<lparr>query_err := Some (Err ''database is locked'')\<rparr>)
           NewRecorder empty_world) = Some 500 \<and>
   body (GetItem (example_env\<lparr>query_err := Some (Err ''database is locked'')\<rparr>)
           NewRecorder empty_world) =
     [Text (''database is locked'' @ [CHR 0x0A]), JSON (GetItemResponse [])]"
  by (simp add: GetItem_def LoadFromDatabase_def Query_def example_env_def Encode_def
        http_Error_def Write_def WriteHeader_def Header_Set_def NewRecorder_def)

subsection \<open>Serving images\<close>

lemma buildImagePath_outside:
  "outside_dir (imgDirPath s) name \<Longrightarrow>
   buildImagePath s w name =
     ([], Some (Err (''invalid image path: '' @ Join (imgDirPath s) (Clean name))))"
  by (simp add: buildImagePath_def outside_dir_def)

lemma has_file_chunk_http_Error [simp]: "\<not> has_file_chunk (http_Error NewRecorder msg st)"
  by (simp add: has_file_chunk_def)

text \<open>
  C2. A requested file name whose cleaned form, joined with the image directory, lies
  outside that directory (\<open>filepath.Rel\<close> from the directory to the joined path fails
  or begins with \<open>..\<close>) is rejected by \<open>buildImagePath\<close> with the invalid-path error
  and no path; \<open>GetImage\<close> answers with status 400 and sends no file content.
\<close>

theorem GetImage_rejects_outside:
  "outside_dir (imgDirPath s) (PathValue r ''filename'') \<Longrightarrow>
   fst (buildImagePath s w (PathValue r ''filename'')) = [] \<and>
   snd (buildImagePath s w (PathValue r ''filename'')) =
     Some (Err (''invalid image path: '' @ Join (imgDirPath s) (Clean (PathValue r ''filename'')))) \<and>
   code (GetImage e s NewRecorder r w) = Some 400 \<and>
   \<not> has_file_chunk (GetImage e s NewRecorder r w)"
proof -
  assume a: "outside_dir (imgDirPath s) (PathValue r ''filename'')"
  note b = buildImagePath_outside [OF a, of w]
  show ?thesis
  proof (cases "PathValue r ''filename'' = []")
    case True
    then have "GetImage e s NewRecorder r w = http_Error NewRecorder ''filename is required'' 400"
      by (simp add: GetImage_def parseGetImageRequest_def)
    then show ?thesis using b by simp
  next
    case False
    then have "GetImage e s NewRecorder r w =
      http_Error NewRecorder (''invalid image path: '' @ Join (imgDirPath s) (Clean (PathValue r ''filename''))) 400"
      using b by (simp add: GetImage_def parseGetImageRequest_def)
    then show ?thesis using b by simp
  qed
qed

lemma outside_example: "outside_dir ''images'' ''../secret.jpg''"
  by (simp add: outside_dir_def Rel_def Join_def Clean_def clean_step_def elem_of_def after_elem_def)

theorem GetImage_rejects_outside_witness:
  "outside_dir (imgDirPath example_handlers) (PathValue (image_request ''../secret.jpg'') ''filename'') \<and>
   Stat secret_world (Join (imgDirPath example_handlers) (Clean ''../secret.jpg'')) \<and>
   code (GetImage example_env example_handlers NewRecorder (image_request ''../secret.jpg'') secret_world) = Some 400 \<and>
   \<not> has_file_chunk (GetImage example_env example_handlers NewRecorder (image_request ''../secret.jpg'') secret_world)"
proof -
  have p: "PathValue (image_request ''../secret.jpg'') ''filename'' = ''../secret.jpg''"
    by (simp add: PathValue_def image_request_def lookup_or_empty_def)
  have o: "outside_dir (imgDirPath example_handlers) (PathValue (image_request ''../secret.jpg'') ''filename'')"
    unfolding p using outside_example by (simp add: example_handlers_def)
  have s: "Stat secret_world (Join (imgDirPath example_handlers) (Clean ''../secret.jpg''))"
    by (simp add: Stat_def secret_world_def example_handlers_def Join_def Clean_def clean_step_def)
  show ?thesis
    using o s GetImage_rejects_outside
            [of example_handlers "image_request ''../secret.jpg''" secret_world example_env]
    by (simp only: simp_thms)
qed









lemma ServeFile_head:
  "Method r = ''HEAD'' \<Longrightarrow> \<not> has_precondition r \<Longrightarrow> \<not> containsDotDot (url_path r) \<Longrightarrow>
   \<not> suffix ''/index.html'' (url_path r) \<Longrightarrow> map_of (files w) name = Some d \<Longrightarrow>
   code (ServeFile e NewRecorder r w name) = Some 200 \<and>
   body (ServeFile e NewRecorder r w name) = []"
  by (simp add: ServeFile_def serveContent_def WriteHeader_def NewRecorder_def)

lemma ServeFile_conditional:
  "has_precondition r \<Longrightarrow> \<not> containsDotDot (url_path r) \<Longrightarrow>
   \<not> suffix ''/index.html'' (url_path r) \<Longrightarrow> map_of (files w) name = Some d \<Longrightarrow>
   ServeFile e rw r w name = conditional_content e r d rw"
  by (simp add: ServeFile_def serveContent_def)

lemma ServeFile_index_redirect:
  "\<not> containsDotDot (url_path r) \<Longrightarrow> suffix ''/index.html'' (url_path r) \<Longrightarrow>
   code (ServeFile e NewRecorder r w name) = Some 301 \<and>
   body (ServeFile e NewRecorder r w name) = [] \<and>
   map_of (header (ServeFile e NewRecorder r w name)) ''Location'' =
     Some (if raw_query r \<noteq> [] then ''./?'' @ raw_query r else ''./'')"
  by (simp add: ServeFile_def localRedirect_def WriteHeader_def Header_Set_def NewRecorder_def)

lemma served_file [simp]:
  "code (Write (FileContent d) (WriteHeader 200 NewRecorder)) = Some 200"
  "body (Write (FileContent d) (WriteHeader 200 NewRecorder)) = [FileContent d]"
  by (simp_all add: Write_def WriteHeader_def NewRecorder_def)

text \<open>The checks of the code admit only names the specification calls contained: a
  relative path whose first element is \<open>..\<close> starts with the characters \<open>..\<close>.\<close>

lemma split_sep_first: "\<exists>ws. split_sep p = takeWhile (\<lambda>c. c \<noteq> CHR ''/'') p # ws"
  by (induction p) auto

lemma hd_split_sep: "hd (split_sep p) = takeWhile (\<lambda>c. c \<noteq> CHR ''/'') p"
  using split_sep_first [of p] by auto

lemma first_element_prefix: "hd (split_sep p) = x \<Longrightarrow> prefix x p"
  unfolding hd_split_sep prefix_def by (metis takeWhile_dropWhile_id)

lemma passes_path_checks_contained:
  "passes_path_checks s name \<Longrightarrow> lexically_contained (imgDirPath s) name"
  by (auto simp: passes_path_checks_def outside_dir_def lexically_contained_def
           dest: first_element_prefix split: sum.splits)












subsection \<open>Inserting an item\<close>

lemma store_item_list_db [simp]:
  "categories (snd (store_item_list e item w)) = categories w"
  "items (snd (store_item_list e item w)) = items w"
  "categories_seq (snd (store_item_list e item w)) = categories_seq w"
  "items_seq (snd (store_item_list e item w)) = items_seq w"
  "files (snd (store_item_list e item w)) = files w"
  by (simp_all add: store_item_list_def Let_def split: option.split sum.split)

lemma store_item_list_fails:
  "file_step_fails e w \<Longrightarrow>
   fst (store_item_list e item w) \<noteq> None \<and> file_step_fails e (snd (store_item_list e item w))"
  by (cases "items_json w")
     (auto simp: file_step_fails_def store_item_list_def json_Decode_def Let_def
           split: option.split)

lemma store_item_list_ok:
  "\<not> file_step_fails e w \<Longrightarrow> fst (store_item_list e item w) = None"
  by (cases "items_json w")
     (auto simp: file_step_fails_def store_item_list_def json_Decode_def Let_def
           split: option.split)

lemma Insert_item_and_file_ok:
  "insert_item_err e = None \<Longrightarrow>
   Insert_item_and_file e item cid w =
     store_item_list e item
       (w\<lparr>items := items w @ [new_item_row w item cid], items_seq := items_seq w + 1\<rparr>)"
  by (simp add: Insert_item_and_file_def insert_item_def new_item_row_def Let_def)

lemma Insert_item_and_file_fail:
  "insert_item_err e = Some err \<Longrightarrow> Insert_item_and_file e item cid w = (Some err, w)"
  by (simp add: Insert_item_and_file_def insert_item_def)

lemma select_found:
  "select_category_err e = None \<Longrightarrow> name \<in> set (map cat_name (categories w)) \<Longrightarrow>
   \<exists>c \<in> set (categories w). cat_name c = name \<and> select_category_id e name w = Inr (cat_id c)"
proof -
  assume e: "select_category_err e = None" and n: "name \<in> set (map cat_name (categories w))"
  then obtain c where c: "find (\<lambda>c. cat_name c = name) (categories w) = Some c"
    by (cases "find (\<lambda>c. cat_name c = name) (categories w)") (auto simp: find_None_iff)
  then have "c \<in> set (categories w) \<and> cat_name c = name"
    by (auto simp: find_Some_iff)
  moreover have "select_category_id e name w = Inr (cat_id c)"
    using e c by (simp add: select_category_id_def)
  ultimately show ?thesis by blast
qed

lemma select_not_found:
  "select_category_err e = None \<Longrightarrow> name \<notin> set (map cat_name (categories w)) \<Longrightarrow>
   select_category_id e name w = Inl ErrNoRows"
proof -
  assume e: "select_category_err e = None" and n: "name \<notin> set (map cat_name (categories w))"
  then have "find (\<lambda>c. cat_name c = name) (categories w) = None"
    by (auto simp: find_None_iff)
  then show ?thesis using e by (simp add: select_category_id_def)
qed

lemma select_failed:
  "select_category_err e = Some err \<Longrightarrow> select_category_id e name w = Inl err"
  by (simp add: select_category_id_def)

lemma insert_category_new:
  "insert_category_err e = None \<Longrightarrow> name \<notin> set (map cat_name (categories w)) \<Longrightarrow>
   insert_category e name w =
     (Inr (categories_seq w + 1),
      w\<lparr>categories := categories w @ [new_category_row w name],
        categories_seq := categories_seq w + 1\<rparr>)"
  by (simp add: insert_category_def new_category_row_def Let_def)

lemma insert_category_duplicate:
  "insert_category_err e = None \<Longrightarrow> name \<in> set (map cat_name (categories w)) \<Longrightarrow>
   insert_category e name w = (Inl (Err ''UNIQUE constraint failed: categories.name''), w)"
  by (simp add: insert_category_def)

lemma Insert_existing_category:
  assumes "select_category_err e = None" "insert_item_err e = None"
    and "Category item \<in> set (map cat_name (categories w))"
  shows "\<exists>c \<in> set (categories w). cat_name c = Category item \<and>
           select_category_id e (Category item) w = Inr (cat_id c) \<and>
           Insert e item w =
             store_item_list e item
               (w\<lparr>items := items w @ [new_item_row w item (cat_id c)],
                  items_seq := items_seq w + 1\<rparr>)"
proof -
  obtain c where c: "c \<in> set (categories w)" "cat_name c = Category item"
      "select_category_id e (Category item) w = Inr (cat_id c)"
    using select_found [OF assms(1) assms(3)] by blast
  then have "Insert e item w = Insert_item_and_file e item (cat_id c) w"
    by (simp add: Insert_def Insert_after_select_def)
  with c show ?thesis using Insert_item_and_file_ok [OF assms(2)] by auto
qed

lemma Insert_new_category:
  assumes "db_steps_ok e" and "Category item \<notin> set (map cat_name (categories w))"
  shows "Insert e item w =
           store_item_list e item
             (w\<lparr>categories := categories w @ [new_category_row w (Category item)],
                categories_seq := categories_seq w + 1,
                items := items w @ [new_item_row w item (categories_seq w + 1)],
                items_seq := items_seq w + 1\<rparr>)"
proof -
  from assms have e: "select_category_err e = None" "insert_category_err e = None"
    "last_insert_id_err e = None" "insert_item_err e = None"
    by (simp_all add: db_steps_ok_def)
  have "select_category_id e (Category item) w = Inl ErrNoRows"
    using select_not_found [OF e(1) assms(2)] .
  then show ?thesis
    using insert_category_new [OF e(2) assms(2)] e(3)
    by (simp add: Insert_def Insert_after_select_def LastInsertId_def
          Insert_item_and_file_ok [OF e(4)] new_item_row_def)
qed

lemma Insert_select_failed:
  "select_category_err e = Some err \<Longrightarrow> err \<noteq> ErrNoRows \<Longrightarrow> Insert e item w = (Some err, w)"
  by (simp add: Insert_def Insert_after_select_def select_failed)

text \<open>
  C4. \<open>Insert\<close> resolves the category by exact name. If a row with that name exists,
  the categories are left as they are and the new item row carries the id of such a
  row. If none exists, exactly one category row is appended, with the next generated
  id, and the new item row carries that id. If the lookup fails with an error other than
  \<open>sql.ErrNoRows\<close>, \<open>Insert\<close> returns that error and the world is unchanged.
\<close>

theorem Insert_resolves_category:
  "(select_category_err e = None \<and> insert_item_err e = None \<and>
    Category item \<in> set (map cat_name (categories w)) \<longrightarrow>
      categories (snd (Insert e item w)) = categories w \<and>
      (\<exists>c \<in> set (categories w). cat_name c = Category item \<and>
         items (snd (Insert e item w)) = items w @ [new_item_row w item (cat_id c)])) \<and>
   (db_steps_ok e \<and> Category item \<notin> set (map cat_name (categories w)) \<longrightarrow>
      categories (snd (Insert e item w)) =
        categories w @ [new_category_row w (Category item)] \<and>
      items (snd (Insert e item w)) =
        items w @ [new_item_row w item (cat_id (new_category_row w (Category item)))]) \<and>
   (select_category_err e = Some err \<and> err \<noteq> ErrNoRows \<longrightarrow>
      Insert e item w = (Some err, w))"
proof (intro conjI impI)
  assume a: "select_category_err e = None \<and> insert_item_err e = None \<and>
    Category item \<in> set (map cat_name (categories w))"
  then obtain c where c: "c \<in> set (categories w)" "cat_name c = Category item"
    "Insert e item w =
             store_item_list e item
               (w\<lparr>items := items w @ [new_item_row w item (cat_id c)],
                  items_seq := items_seq w + 1\<rparr>)"
    using Insert_existing_category [of e item w] by blast
  show "categories (snd (Insert e item w)) = categories w"
    unfolding c(3) by simp
  have "items (snd (Insert e item w)) = items w @ [new_item_row w item (cat_id c)]"
    unfolding c(3) by simp
  with c show "\<exists>c \<in> set (categories w). cat_name c = Category item \<and>
         items (snd (Insert e item w)) = items w @ [new_item_row w item (cat_id c)]"
    by blast
next
  assume a: "db_steps_ok e \<and> Category item \<notin> set (map cat_name (categories w))"
  then have i: "Insert e item w =
           store_item_list e item
             (w\<lparr>categories := categories w @ [new_category_row w (Category item)],
                categories_seq := categories_seq w + 1,
                items := items w @ [new_item_row w item (categories_seq w + 1)],
                items_seq := items_seq w + 1\<rparr>)"
    using Insert_new_category by blast
  show "categories (snd (Insert e item w)) =
        categories w @ [new_category_row w (Category item)]"
    unfolding i by simp
  show "items (snd (Insert e item w)) =
        items w @ [new_item_row w item (cat_id (new_category_row w (Category item)))]"
    unfolding i by (simp add: new_category_row_def)
next
  assume "select_category_err e = Some err \<and> err \<noteq> ErrNoRows"
  then show "Insert e item w = (Some err, w)"
    using Insert_select_failed by blast
qed

lemma db_steps_ok_example: "db_steps_ok example_env"
  by (simp add: db_steps_ok_def example_env_def)

theorem Insert_resolves_category_witness:
  "Category pixel_item \<in> set (map cat_name (categories phone_world)) \<and>
   categories (snd (Insert example_env pixel_item phone_world)) =
     [\<lparr>cat_id = 1, cat_name = ''phone''\<rparr>] \<and>
   map category_id (items (snd (Insert example_env pixel_item phone_world))) = [1, 1] \<and>
   Category iphone_item \<notin> set (map cat_name (categories empty_world)) \<and>
   categories (snd (Insert example_env iphone_item empty_world)) =
     [\<lparr>cat_id = 1, cat_name = ''phone''\<rparr>] \<and>
   items (snd (Insert example_env iphone_item empty_world)) =
     [\<lparr>item_id = 1, item_name = ''used iPhone 16e'', category_id = 1,
       image_name = ''a.jpg''\<rparr>] \<and>
   Insert locked_env iphone_item empty_world = (Some (Err ''database is locked''), empty_world)"
proof -
  have h1: "select_category_err example_env = None \<and> insert_item_err example_env = None \<and>
            Category pixel_item \<in> set (map cat_name (categories phone_world))"
    by (simp add: example_env_def pixel_item_def phone_world_def)
  have h2: "db_steps_ok example_env \<and>
            Category iphone_item \<notin> set (map cat_name (categories empty_world))"
    by (simp add: db_steps_ok_example empty_world_def)
  have h3: "select_category_err locked_env = Some (Err ''database is locked'') \<and>
            Err ''database is locked'' \<noteq> ErrNoRows"
    by (simp add: locked_env_def)
  from h1 Insert_resolves_category [of example_env pixel_item phone_world]
  have c1: "categories (snd (Insert example_env pixel_item phone_world)) = categories phone_world"
    and "\<exists>c \<in> set (categories phone_world). cat_name c = Category pixel_item \<and>
           items (snd (Insert example_env pixel_item phone_world)) =
             items phone_world @ [new_item_row phone_world pixel_item (cat_id c)]"
    by blast+
  then have c1': "map category_id (items (snd (Insert example_env pixel_item phone_world))) = [1, 1]"
    by (auto simp: phone_world_def new_item_row_def)
  from h2 Insert_resolves_category [of example_env iphone_item empty_world]
  have c2: "categories (snd (Insert example_env iphone_item empty_world)) =
              categories empty_world @ [new_category_row empty_world (Category iphone_item)]"
    and c2': "items (snd (Insert example_env iphone_item empty_world)) =
              items empty_world @
                [new_item_row empty_world iphone_item
                   (cat_id (new_category_row empty_world (Category iphone_item)))]"
    by blast+
  from h3 Insert_resolves_category [of locked_env iphone_item empty_world "Err ''database is locked''"]
  have c3: "Insert locked_env iphone_item empty_world = (Some (Err ''database is locked''), empty_world)"
    by blast
  have "categories (snd (Insert example_env pixel_item phone_world)) =
     [\<lparr>cat_id = 1, cat_name = ''phone''\<rparr>]"
    unfolding c1 by (simp add: phone_world_def)
  moreover have "categories (snd (Insert example_env iphone_item empty_world)) =
     [\<lparr>cat_id = 1, cat_name = ''phone''\<rparr>]"
    unfolding c2 by (simp add: empty_world_def new_category_row_def iphone_item_def)
  moreover have "items (snd (Insert example_env iphone_item empty_world)) =
     [\<lparr>item_id = 1, item_name = ''used iPhone 16e'', category_id = 1,
       image_name = ''a.jpg''\<rparr>]"
    unfolding c2' by (simp add: empty_world_def new_category_row_def new_item_row_def iphone_item_def)
  ultimately show ?thesis using h1 h2 c1' c3 by blast
qed

lemma select_category_id_cong:
  "categories w' = categories w \<Longrightarrow>
   select_category_id e name w' = select_category_id e name w"
  unfolding select_category_id_def by (erule ssubst) (rule refl)

lemma find_snoc:
  "find P xs = None \<Longrightarrow> P x \<Longrightarrow> find P (xs @ [x]) = Some x"
  by (induction xs) (auto split: if_splits)

lemma select_appended:
  "select_category_err e = None \<Longrightarrow> name \<notin> set (map cat_name (categories w)) \<Longrightarrow>
   categories w' = categories w @ [new_category_row w name] \<Longrightarrow>
   select_category_id e name w' = Inr (categories_seq w + 1)"
proof -
  assume e: "select_category_err e = None" and n: "name \<notin> set (map cat_name (categories w))"
    and c: "categories w' = categories w @ [new_category_row w name]"
  from n have "find (\<lambda>c. cat_name c = name) (categories w) = None"
    by (auto simp: find_None_iff)
  then have "find (\<lambda>c. cat_name c = name) (categories w') = Some (new_category_row w name)"
    unfolding c by (rule find_snoc) (simp add: new_category_row_def)
  then show ?thesis using e by (simp add: select_category_id_def new_category_row_def)
qed

lemma Insert_db_steps:
  assumes "db_steps_ok e"
  shows "\<exists>cid w'. Insert e item w = store_item_list e item w' \<and>
           items w' = items w @ [new_item_row w item cid] \<and>
           items_seq w' = items_seq w + 1 \<and>
           items_json w' = items_json w \<and>
           files w' = files w \<and>
           Category item \<in> set (map cat_name (categories w')) \<and>
           select_category_id e (Category item) w' = Inr cid"
proof (cases "Category item \<in> set (map cat_name (categories w))")
  case True
  from assms have e: "select_category_err e = None" "insert_item_err e = None"
    by (simp_all add: db_steps_ok_def)
  obtain c :: category_row where c: "select_category_id e (Category item) w = Inr (cat_id c)"
    "Insert e item w =
       store_item_list e item
         (w\<lparr>items := items w @ [new_item_row w item (cat_id c)], items_seq := items_seq w + 1\<rparr>)"
    using Insert_existing_category [OF e True] by blast
  let ?w' = "w\<lparr>items := items w @ [new_item_row w item (cat_id c)], items_seq := items_seq w + 1\<rparr>"
  have "select_category_id e (Category item) ?w' = Inr (cat_id c)"
    using c(1) select_category_id_cong [of ?w' w e "Category item"] by simp
  with c(2) True show ?thesis
    by (intro exI [of _ "cat_id c"] exI [of _ ?w']) simp
next
  case False
  from assms have e: "select_category_err e = None" by (simp add: db_steps_ok_def)
  let ?w' = "w\<lparr>categories := categories w @ [new_category_row w (Category item)],
                categories_seq := categories_seq w + 1,
                items := items w @ [new_item_row w item (categories_seq w + 1)],
                items_seq := items_seq w + 1\<rparr>"
  have i: "Insert e item w = store_item_list e item ?w'"
    using Insert_new_category [OF assms False] .
  have "select_category_id e (Category item) ?w' = Inr (categories_seq w + 1)"
    using select_appended [OF e False, of ?w'] by simp
  with i show ?thesis
    by (intro exI [of _ "categories_seq w + 1"] exI [of _ ?w']) (simp add: new_category_row_def)
qed

lemma file_step_fails_cong:
  "items_json w' = items_json w \<Longrightarrow> file_step_fails e w' = file_step_fails e w"
  unfolding file_step_fails_def by (erule ssubst) (rule refl)

lemma Insert_file_failure:
  assumes "db_steps_ok e" "file_step_fails e w"
  shows "\<exists>cid. fst (Insert e item w) \<noteq> None \<and>
           items (snd (Insert e item w)) = items w @ [new_item_row w item cid] \<and>
           items_seq (snd (Insert e item w)) = items_seq w + 1 \<and>
           Category item \<in> set (map cat_name (categories (snd (Insert e item w)))) \<and>
           select_category_id e (Category item) (snd (Insert e item w)) = Inr cid \<and>
           file_step_fails e (snd (Insert e item w))"
proof -
  obtain cid w' where w': "Insert e item w = store_item_list e item w'"
    "items w' = items w @ [new_item_row w item cid]" "items_seq w' = items_seq w + 1"
    "items_json w' = items_json w"
    "Category item \<in> set (map cat_name (categories w'))"
    "select_category_id e (Category item) w' = Inr cid"
    using Insert_db_steps [OF assms(1), of item w] by blast
  have f: "file_step_fails e w'"
    using assms(2) file_step_fails_cong [OF w'(4), of e] by simp
  have "select_category_id e (Category item) (snd (store_item_list e item w')) = Inr cid"
    using w'(6) select_category_id_cong [of "snd (store_item_list e item w')" w' e "Category item"]
    by simp
  then show ?thesis
    unfolding w'(1) using store_item_list_fails [OF f, of item] w'(2,3,5)
    by (intro exI [of _ cid]) simp
qed

lemma Insert_known_category:
  assumes "select_category_id e (Category item) w = Inr cid" "insert_item_err e = None"
  shows "Insert e item w =
           store_item_list e item
             (w\<lparr>items := items w @ [new_item_row w item cid], items_seq := items_seq w + 1\<rparr>)"
  using assms by (simp add: Insert_def Insert_after_select_def Insert_item_and_file_ok)

lemma storeImage_db [simp]:
  "categories (snd (storeImage e s img w)) = categories w"
  "items (snd (storeImage e s img w)) = items w"
  "categories_seq (snd (storeImage e s img w)) = categories_seq w"
  "items_seq (snd (storeImage e s img w)) = items_seq w"
  "items_json (snd (storeImage e s img w)) = items_json w"
  by (simp_all add: storeImage_def StoreImage_def WriteFile_def Let_def split: option.split)

lemma storeImage_succeeds:
  "write_file_err e = None \<Longrightarrow>
   fst (storeImage e s img w) = Inr (Join (imgDirPath s) (content_name e img))"
  by (simp add: storeImage_def StoreImage_def WriteFile_def Let_def content_name_def)

lemma AddItem_valid:
  assumes "valid_request r" "write_file_err e = None"
  shows "AddItem e s rw r w =
     (case Insert e \<lparr>ID = 0, Name = FormValue r ''name'', Category = FormValue r ''category'',
                     Image = Base (Join (imgDirPath s) (content_name e (image_bytes r)))\<rparr>
             (snd (storeImage e s (image_bytes r) w)) of
        (Some err, w2) \<Rightarrow> (http_Error rw (Error err) 500, w2)
      | (None, w2) \<Rightarrow>
          (case Encode e rw (AddItemResponse (''item received: '' @ FormValue r ''name'')) of
             (Some err, rw1) \<Rightarrow> (http_Error rw1 (Error err) 500, w2)
           | (None, rw1) \<Rightarrow> (rw1, w2)))"
proof -
  obtain x w1 where s: "storeImage e s (image_bytes r) w = (x, w1)"
    by (cases "storeImage e s (image_bytes r) w")
  then have "x = Inr (Join (imgDirPath s) (content_name e (image_bytes r)))"
    using storeImage_succeeds [OF assms(2), of s "image_bytes r" w] by simp
  with s show ?thesis
    by (simp add: AddItem_def parseAddItemRequest_valid [OF assms(1)] Let_def
          split: prod.split option.split)
qed

text \<open>
  C10. \<open>Insert\<close> is not atomic across the database and the JSON file. When the
  statements on the database succeed and a step on the file fails (opening it, decoding
  what it holds, or encoding the new list), \<open>Insert\<close> returns an error although the item
  row, and the category row it needed, are in the database; inserting the same item again
  fails again and leaves a second item row. \<open>AddItem\<close> answers such a request with
  status 500 although an item row was added.
\<close>

theorem Insert_not_atomic:
  assumes "db_steps_ok e" and "file_step_fails e w"
  shows "(\<exists>cid.
           fst (Insert e item w) \<noteq> None \<and>
           items (snd (Insert e item w)) = items w @ [new_item_row w item cid] \<and>
           Category item \<in> set (map cat_name (categories (snd (Insert e item w)))) \<and>
           fst (Insert e item (snd (Insert e item w))) \<noteq> None \<and>
           items (snd (Insert e item (snd (Insert e item w)))) =
             items w @ [new_item_row w item cid,
                        (new_item_row w item cid)\<lparr>item_id := items_seq w + 2\<rparr>]) \<and>
         (valid_request r \<and> write_file_err e = None \<longrightarrow>
           code (fst (AddItem e s NewRecorder r w)) = Some 500 \<and>
           length (items (snd (AddItem e s NewRecorder r w))) = length (items w) + 1)"
proof (rule conjI)
  let ?w1 = "snd (Insert e item w)"
  obtain cid where 1: "fst (Insert e item w) \<noteq> None"
    "items ?w1 = items w @ [new_item_row w item cid]"
    "items_seq ?w1 = items_seq w + 1"
    "Category item \<in> set (map cat_name (categories ?w1))"
    "select_category_id e (Category item) ?w1 = Inr cid"
    "file_step_fails e ?w1"
    using Insert_file_failure [OF assms, of item] by blast
  from assms(1) have ie: "insert_item_err e = None" by (simp add: db_steps_ok_def)
  let ?w2 = "?w1\<lparr>items := items ?w1 @ [new_item_row ?w1 item cid],
                  items_seq := items_seq ?w1 + 1\<rparr>"
  have 2: "Insert e item ?w1 = store_item_list e item ?w2"
    using Insert_known_category [OF 1(5) ie] .
  have "file_step_fails e ?w2"
    using 1(6) file_step_fails_cong [of ?w2 ?w1 e] by simp
  then have "fst (Insert e item ?w1) \<noteq> None"
    unfolding 2 using store_item_list_fails by blast
  moreover have "items (snd (Insert e item ?w1)) =
      items w @ [new_item_row w item cid,
                 (new_item_row w item cid)\<lparr>item_id := items_seq w + 2\<rparr>]"
    unfolding 2 using 1(2,3) by (simp add: new_item_row_def)
  ultimately show "\<exists>cid.
           fst (Insert e item w) \<noteq> None \<and>
           items (snd (Insert e item w)) = items w @ [new_item_row w item cid] \<and>
           Category item \<in> set (map cat_name (categories (snd (Insert e item w)))) \<and>
           fst (Insert e item (snd (Insert e item w))) \<noteq> None \<and>
           items (snd (Insert e item (snd (Insert e item w)))) =
             items w @ [new_item_row w item cid,
                        (new_item_row w item cid)\<lparr>item_id := items_seq w + 2\<rparr>]"
    using 1(1,2,4) by blast
next
  show "valid_request r \<and> write_file_err e = None \<longrightarrow>
           code (fst (AddItem e s NewRecorder r w)) = Some 500 \<and>
           length (items (snd (AddItem e s NewRecorder r w))) = length (items w) + 1"
  proof
    assume a: "valid_request r \<and> write_file_err e = None"
    let ?item = "\<lparr>ID = 0, Name = FormValue r ''name'', Category = FormValue r ''category'',
                     Image = Base (Join (imgDirPath s) (content_name e (image_bytes r)))\<rparr>"
    let ?w1 = "snd (storeImage e s (image_bytes r) w)"
    have f: "file_step_fails e ?w1"
      using assms(2) file_step_fails_cong [of ?w1 w e] by simp
    obtain cid where i: "fst (Insert e ?item ?w1) \<noteq> None"
      "items (snd (Insert e ?item ?w1)) = items ?w1 @ [new_item_row ?w1 ?item cid]"
      using Insert_file_failure [OF assms(1) f, of ?item] by blast
    obtain err w2 where r: "Insert e ?item ?w1 = (Some err, w2)"
      using i(1) by (cases "Insert e ?item ?w1") auto
    have "AddItem e s NewRecorder r w = (http_Error NewRecorder (Error err) 500, w2)"
      using a r by (simp add: AddItem_valid)
    moreover have "items w2 = items w @ [new_item_row ?w1 ?item cid]"
      using i(2) r by simp
    ultimately show "code (fst (AddItem e s NewRecorder r w)) = Some 500 \<and>
           length (items (snd (AddItem e s NewRecorder r w))) = length (items w) + 1"
      by simp
  qed
qed

lemma valid_iphone_request: "valid_request iphone_request"
  by (simp add: valid_request_def iphone_request_def add_request_def FormValue_def
        lookup_or_empty_def example_image_def)

theorem Insert_not_atomic_witness:
  "db_steps_ok readonly_env \<and> file_step_fails readonly_env empty_world \<and>
   fst (Insert readonly_env iphone_item empty_world) \<noteq> None \<and>
   length (items (snd (Insert readonly_env iphone_item empty_world))) = 1 \<and>
   length (items (snd (Insert readonly_env iphone_item
                         (snd (Insert readonly_env iphone_item empty_world))))) = 2 \<and>
   valid_request iphone_request \<and>
   code (fst (AddItem readonly_env example_handlers NewRecorder iphone_request empty_world)) =
     Some 500 \<and>
   length (items (snd (AddItem readonly_env example_handlers NewRecorder iphone_request
                         empty_world))) = 1"
proof -
  have h1: "db_steps_ok readonly_env"
    by (simp add: db_steps_ok_def readonly_env_def example_env_def)
  have h2: "file_step_fails readonly_env empty_world"
    by (simp add: file_step_fails_def readonly_env_def)
  have h3: "valid_request iphone_request \<and> write_file_err readonly_env = None"
    by (simp add: valid_iphone_request readonly_env_def example_env_def)
  note t = Insert_not_atomic [OF h1 h2, of iphone_item iphone_request example_handlers]
  from t obtain cid where
    a: "fst (Insert readonly_env iphone_item empty_world) \<noteq> None"
    and b: "items (snd (Insert readonly_env iphone_item empty_world)) =
           items empty_world @ [new_item_row empty_world iphone_item cid]"
    and c: "items (snd (Insert readonly_env iphone_item
                         (snd (Insert readonly_env iphone_item empty_world)))) =
           items empty_world @
             [new_item_row empty_world iphone_item cid,
              (new_item_row empty_world iphone_item cid)\<lparr>item_id := items_seq empty_world + 2\<rparr>]"
    by blast
  from t h3 have d:
    "code (fst (AddItem readonly_env example_handlers NewRecorder iphone_request empty_world)) =
       Some 500"
    and e: "length (items (snd (AddItem readonly_env example_handlers NewRecorder iphone_request
                         empty_world))) = length (items empty_world) + 1"
    by blast+
  have "length (items (snd (Insert readonly_env iphone_item empty_world))) = 1"
    unfolding b by (simp add: empty_world_def)
  moreover have "length (items (snd (Insert readonly_env iphone_item
                         (snd (Insert readonly_env iphone_item empty_world))))) = 2"
    unfolding c by (simp add: empty_world_def)
  moreover have "length (items (snd (AddItem readonly_env example_handlers NewRecorder
                         iphone_request empty_world))) = 1"
    unfolding e by (simp add: empty_world_def)
  ultimately show ?thesis using h1 h2 h3 a d by blast
qed

text \<open>
  C5, as claimed, fails. Two inserts of items with the same new category race: both run
  their \<open>SELECT\<close> on the empty database, then the first runs to its end. The second
  then inserts the category, violates the unique constraint, and returns that error to
  its caller; its item row is not inserted.
\<close>

theorem Insert_race_counterexample:
  "fst (Insert_after_select example_env iphone_item
          (select_category_id example_env (Category iphone_item) empty_world) empty_world) = None \<and>
   Insert_after_select example_env pixel_item
      (select_category_id example_env (Category pixel_item) empty_world) raced_world =
     (Some (Err ''UNIQUE constraint failed: categories.name''), raced_world) \<and>
   map item_name (items raced_world) = [''used iPhone 16e'']"
  by (simp add: raced_world_def Insert_after_select_def select_category_id_def example_env_def
        empty_world_def iphone_item_def pixel_item_def insert_category_def LastInsertId_def
        Insert_item_and_file_def insert_item_def store_item_list_def json_Decode_def Let_def)

text \<open>
  C5, amended. When the \<open>SELECT\<close> found no row and the category insertion conflicts
  with an existing row of the same name, \<open>Insert\<close> returns the unique-constraint error
  and changes nothing: no item row is inserted and the categories keep their one row of
  that name.
\<close>

theorem Insert_category_conflict:
  "insert_category_err e = None \<Longrightarrow> Category item \<in> set (map cat_name (categories w)) \<Longrightarrow>
   Insert_after_select e item (Inl ErrNoRows) w =
     (Some (Err ''UNIQUE constraint failed: categories.name''), w)"
  by (simp add: Insert_after_select_def insert_category_duplicate)

theorem Insert_category_conflict_witness:
  "insert_category_err example_env = None \<and>
   Category pixel_item \<in> set (map cat_name (categories phone_world)) \<and>
   Insert_after_select example_env pixel_item (Inl ErrNoRows) phone_world =
     (Some (Err ''UNIQUE constraint failed: categories.name''), phone_world)"
proof -
  have h1: "insert_category_err example_env = None" by (simp add: example_env_def)
  have h2: "Category pixel_item \<in> set (map cat_name (categories phone_world))"
    by (simp add: pixel_item_def phone_world_def)
  show ?thesis using h1 h2 Insert_category_conflict [OF h1 h2] by blast
qed

subsection \<open>Searching by keyword\<close>

lemma filter_key_singleton:
  "distinct (map f xs) \<Longrightarrow> x \<in> set xs \<Longrightarrow> filter (\<lambda>y. f y = f x) xs = [x]"
proof (induction xs)
  case Nil
  then show ?case by simp
next
  case (Cons y ys)
  show ?case
  proof (cases "y = x")
    case True
    with Cons.prems have "f x \<notin> f ` set ys" by simp
    then have "\<forall>z \<in> set ys. f z \<noteq> f x" by (metis imageI)
    then have "filter (\<lambda>y. f y = f x) ys = []" by (simp add: filter_empty_conv)
    with True show ?thesis by simp
  next
    case False
    with Cons.prems have "x \<in> set ys" "f y \<noteq> f x" by auto
    with Cons show ?thesis by simp
  qed
qed

lemma join_rows_Nil [simp]: "join_rows w [] = []"
  by (simp add: join_rows_def)

lemma join_rows_append [simp]: "join_rows w (xs @ ys) = join_rows w xs @ join_rows w ys"
  by (simp add: join_rows_def)

lemma join_rows_Cons: "join_rows w (x # xs) = join_rows w [x] @ join_rows w xs"
  by (simp add: join_rows_def)

lemma join_rows_single:
  assumes "distinct (map cat_id (categories w))" "c \<in> set (categories w)"
    and "cat_id c = category_id i"
  shows "join_rows w [i] =
           [\<lparr>ID = item_id i, Name = item_name i, Category = cat_name c, Image = image_name i\<rparr>]"
proof -
  have "filter (\<lambda>y. cat_id y = cat_id c) (categories w) = [c]"
    using assms(1,2) by (rule filter_key_singleton)
  then show ?thesis by (simp add: join_rows_def assms(3))
qed

lemma join_rows_names:
  "db_consistent w \<Longrightarrow> set rows \<subseteq> set (items w) \<Longrightarrow>
   map Name (join_rows w rows) = map item_name rows"
proof (induction rows)
  case Nil
  then show ?case by simp
next
  case (Cons i rows)
  from Cons.prems have "category_id i \<in> set (map cat_id (categories w))"
    and d: "distinct (map cat_id (categories w))"
    by (auto simp: db_consistent_def)
  then obtain c where "c \<in> set (categories w)" "cat_id c = category_id i" by auto
  then have "map Name (join_rows w [i]) = [item_name i]"
    using join_rows_single [OF d] by simp
  with Cons show ?case by (simp add: join_rows_Cons [of w i rows])
qed

lemma SearchItem_ok:
  assumes "Query_Get r ''keyword'' = keyword" "keyword \<noteq> []"
    and "query_err e = None" "scan_err e = None" "encode_response_err e = None"
  shows "SearchItem e rw r w =
           Write (JSON (ItemArray (join_rows w
              (filter (\<lambda>i. sql_like (''%'' @ keyword @ ''%'') (item_name i) = Inr True)
                 (items w)))))
             (Header_Set ''Content-Type'' ''application/json'' rw)"
  using assms
  by (simp add: SearchItem_def Query_def scan_rows_def Encode_def)

lemma Query_Get_search_request [simp]: "Query_Get (search_request keyword) ''keyword'' = keyword"
  by (simp add: Query_Get_def search_request_def lookup_or_empty_def)

lemmas like_eval =
  sql_like_def c_string_def Utf8Read_def sqlite3Utf8Trans1_def byte_val_def matchAll_def
  matchOne_def sqlite3Tolower_def sqlite3Toupper_def SQLITE_MAX_LIKE_PATTERN_LENGTH_def
  patternCompare.simps skip_wildcards.simps search_utf8.simps

text \<open>The engine's \<open>LIKE\<close> on examples: the keyword of the specification's example, the
  case of ASCII letters, the two wildcards, a character of two bytes (\<open>e\<close> with acute
  accent, \<open>0xc3 0xa9\<close>) under \<open>_\<close> and against its lead byte alone, a pattern cut at a NUL
  byte, and a pattern beyond the length limit.\<close>

lemma like_iPhone:
  "sql_like ''%iPhone%'' ''used iPhone 16e'' = Inr True"
  "sql_like ''%iPhone%'' ''Pixel 8'' = Inr False"
  "sql_like ''%tablet%'' ''used iPhone 16e'' = Inr False"
  "sql_like ''%tablet%'' ''Pixel 8'' = Inr False"
  by (simp_all add: like_eval)

lemma like_ascii_case: "sql_like ''%IPHONE%'' ''used iPhone 16e'' = Inr True"
  by (simp add: like_eval)

lemma like_wildcards:
  "sql_like ''%%%'' ''used iPhone 16e'' = Inr True"
  "sql_like ''%%%'' ''Pixel 8'' = Inr True"
  "sql_like ''%_%'' ''used iPhone 16e'' = Inr True"
  "sql_like ''%_%'' ''Pixel 8'' = Inr True"
  "sql_like ''%_%'' [] = Inr False"
  by (simp_all add: like_eval)

lemma like_utf8_character:
  "sql_like ''a_b'' [CHR ''a'', CHR 0xC3, CHR 0xA9, CHR ''b''] = Inr True"
  "sql_like ''a__b'' [CHR ''a'', CHR 0xC3, CHR 0xA9, CHR ''b''] = Inr False"
  "sql_like [CHR ''%'', CHR 0xC3, CHR ''%''] [CHR ''a'', CHR 0xC3, CHR 0xA9, CHR ''b''] =
     Inr False"
  "sql_like [CHR ''%'', CHR 0xC3, CHR 0xA9, CHR ''%''] [CHR ''a'', CHR 0xC3, CHR 0xA9, CHR ''b''] =
     Inr True"
  by (simp_all add: like_eval)

lemma like_nul:
  "sql_like [CHR ''%'', CHR 0x00, CHR ''z'', CHR ''z'', CHR ''z'', CHR ''%''] ''abc'' = Inr True"
  by (simp add: like_eval)

lemma like_too_long:
  "length pattern > 50000 \<Longrightarrow>
   sql_like pattern str = Inl (Err ''LIKE or GLOB pattern too complex'')"
  by (simp add: sql_like_def SQLITE_MAX_LIKE_PATTERN_LENGTH_def)

text \<open>The example of the specification: searching \<open>iPhone\<close> over the two items returns
  the first one only, and a search that matches nothing is answered 200 with an empty
  array.\<close>

lemma search_iPhone:
  "body (SearchItem example_env NewRecorder (search_request ''iPhone'') two_items_world) =
     [JSON (ItemArray
        [\<lparr>ID = 1, Name = ''used iPhone 16e'', Category = ''phone'', Image = ''a.jpg''\<rparr>])]"
  "code (SearchItem example_env NewRecorder (search_request ''tablet'') two_items_world) =
     Some 200"
  "body (SearchItem example_env NewRecorder (search_request ''tablet'') two_items_world) =
     [JSON (ItemArray [])]"
  by (simp_all add: SearchItem_ok [where keyword = "''iPhone''"]
        SearchItem_ok [where keyword = "''tablet''"] example_env_def like_iPhone
        join_rows_def two_items_world_def Write_def WriteHeader_def Header_Set_def
        NewRecorder_def)

text \<open>
  C8. The handler's own comment says the query searches for the items that contain the
  keyword, and so does the specification. The keyword is put between two \<open>%\<close> and handed
  to \<open>LIKE\<close> as it is, so a \<open>%\<close> or \<open>_\<close> inside it is a wildcard: searching for \<open>%\<close>, or
  for \<open>_\<close>, is answered 200 with both items of the example, and neither name contains
  \<open>%\<close> or \<open>_\<close>.
\<close>

theorem SearchItem_wildcard_returns_all:
  "code (SearchItem example_env NewRecorder (search_request ''%'') two_items_world) =
     Some 200 \<and>
   body (SearchItem example_env NewRecorder (search_request ''%'') two_items_world) =
     [JSON (ItemArray
        [\<lparr>ID = 1, Name = ''used iPhone 16e'', Category = ''phone'', Image = ''a.jpg''\<rparr>,
         \<lparr>ID = 2, Name = ''Pixel 8'', Category = ''phone'', Image = ''b.jpg''\<rparr>])] \<and>
   \<not> sublist ''%'' ''used iPhone 16e'' \<and> \<not> sublist ''%'' ''Pixel 8'' \<and>
   body (SearchItem example_env NewRecorder (search_request ''_'') two_items_world) =
     [JSON (ItemArray
        [\<lparr>ID = 1, Name = ''used iPhone 16e'', Category = ''phone'', Image = ''a.jpg''\<rparr>,
         \<lparr>ID = 2, Name = ''Pixel 8'', Category = ''phone'', Image = ''b.jpg''\<rparr>])] \<and>
   \<not> sublist ''_'' ''used iPhone 16e'' \<and> \<not> sublist ''_'' ''Pixel 8''"
  by (simp add: SearchItem_ok [where keyword = "''%''"] SearchItem_ok [where keyword = "''_''"]
        example_env_def like_wildcards
        join_rows_def two_items_world_def Write_def WriteHeader_def Header_Set_def
        NewRecorder_def sublist_code)

subsection \<open>Adding an item and loading it back\<close>

lemma split_sep_not_Nil [simp]: "split_sep s \<noteq> []"
  by (induction s) (auto split: list.splits)

lemma split_sep_append:
  "split_sep (a @ CHR ''/'' # b) = split_sep a @ split_sep b"
proof (induction a)
  case Nil
  then show ?case by simp
next
  case (Cons c cs)
  obtain w ws where "split_sep cs = w # ws"
    by (cases "split_sep cs") auto
  with Cons show ?case by simp
qed

lemma split_sep_plain: "CHR ''/'' \<notin> set f \<Longrightarrow> split_sep f = [f]"
  by (induction f) auto

lemma clean_step_plain: "plain_name f \<Longrightarrow> clean_step rooted out f = out @ [f]"
  by (simp add: clean_step_def plain_name_def)

lemma join_sep_snoc:
  "join_sep (out @ [f]) = (if out = [] then f else join_sep out @ ''/'' @ f)"
  by (induction out rule: join_sep.induct) auto

lemma Clean_ends_with_plain:
  assumes "plain_name f" "split_sep path = comps @ [f]"
  shows "\<exists>y. Clean path = y @ f \<and> (y = [] \<or> last y = CHR ''/'')"
proof -
  from assms have ne: "path \<noteq> []" by (cases path) (auto simp: plain_name_def)
  define rooted where "rooted = (hd path = CHR ''/'')"
  define out where "out = foldl (clean_step rooted) [] comps"
  have f: "foldl (clean_step rooted) [] (split_sep path) = out @ [f]"
    unfolding assms(2) out_def by (simp add: clean_step_plain [OF assms(1)])
  define y where
    "y = (if rooted then ''/'' else []) @ (if out = [] then [] else join_sep out @ ''/'')"
  have s: "(if rooted then ''/'' else []) @ join_sep (out @ [f]) = y @ f"
    by (simp add: y_def join_sep_snoc)
  from assms(1) have "y @ f \<noteq> []" by (simp add: plain_name_def)
  then have j: "(if rooted then ''/'' else []) @ join_sep (out @ [f]) \<noteq> []"
    unfolding s .
  have "Clean path = (if rooted then ''/'' else []) @ join_sep (out @ [f])"
    using ne j unfolding Clean_def rooted_def [symmetric] Let_def f by (simp only: if_False)
  with s have "Clean path = y @ f" by (simp only:)
  moreover have "y = [] \<or> last y = CHR ''/''"
    by (simp add: y_def)
  ultimately show ?thesis by blast
qed

lemma Join_ends_with_plain:
  assumes "plain_name f"
  shows "\<exists>y. Join d f = y @ f \<and> (y = [] \<or> last y = CHR ''/'')"
proof (cases "d = []")
  case True
  from assms have "split_sep f = [] @ [f]" by (simp add: split_sep_plain plain_name_def)
  from Clean_ends_with_plain [OF assms this] True assms show ?thesis
    by (simp add: Join_def plain_name_def)
next
  case False
  from assms have "split_sep (d @ ''/'' @ f) = split_sep d @ [f]"
    by (simp add: split_sep_append split_sep_plain plain_name_def)
  from Clean_ends_with_plain [OF assms this] False show ?thesis
    by (simp add: Join_def)
qed

lemma Base_ends_with_plain:
  assumes "plain_name f" "y = [] \<or> last y = CHR ''/''"
  shows "Base (y @ f) = f"
proof -
  from assms(1) have f: "f \<noteq> []" "CHR ''/'' \<notin> set f" by (simp_all add: plain_name_def)
  then have "hd (rev f) \<noteq> CHR ''/''"
    by (metis hd_rev last_in_set)
  with f have d: "dropWhile (\<lambda>c. c = CHR ''/'') (rev f @ rev y) = rev f @ rev y"
    by (cases "rev f") auto
  have "takeWhile (\<lambda>c. c \<noteq> CHR ''/'') (rev f @ rev y) = rev f"
  proof (cases "y = []")
    case True
    with f show ?thesis by auto
  next
    case False
    with assms(2) have "hd (rev y) = CHR ''/''" "rev y \<noteq> []" by (simp_all add: hd_rev)
    then obtain ys where ys: "rev y = CHR ''/'' # ys" by (cases "rev y") auto
    from f have "takeWhile (\<lambda>c. c \<noteq> CHR ''/'') (rev f) = rev f"
      by (auto simp: takeWhile_eq_all_conv)
    then show ?thesis
      unfolding ys
      using takeWhile_tail [of "\<lambda>c. c \<noteq> CHR ''/''" "CHR ''/''" "rev f" ys]
      by (simp only: not_not)
  qed
  with d f show ?thesis by (simp add: Base_def Let_def)
qed

lemma Base_Join_plain: "plain_name f \<Longrightarrow> Base (Join d f) = f"
  using Join_ends_with_plain [of f d] Base_ends_with_plain [of f] by metis

lemma hextable_nth: "n < 16 \<Longrightarrow> hextable ! n \<in> set hextable"
  by (rule nth_mem) (simp add: hextable_def)

lemma high_nibble_bound: "unat (drop_bit 4 (v :: byte)) < 16"
proof -
  have "unat v < 256" using unsigned_less [of v, where ?'a = nat] by simp
  then have "unat v div 2 ^ 4 < 16" by simp
  then have "drop_bit 4 (unat v) < 16" by (simp only: drop_bit_eq_div)
  then show ?thesis by (simp only: unat_drop_bit_eq)
qed

lemma low_nibble_bound: "unat ((v :: byte) AND 0x0f) < 16"
proof -
  have "unat (v AND 15) \<le> unat (15 :: byte)"
    by (rule word_and_le1 [THEN word_le_nat_alt [THEN iffD1]])
  then show ?thesis by simp
qed

lemma set_EncodeToString: "set (EncodeToString src) \<subseteq> set hextable"
  by (auto simp: EncodeToString_def hextable_nth high_nibble_bound low_nibble_bound)

lemma plain_content_name: "plain_name (content_name e img)"
proof -
  have "CHR ''/'' \<notin> set hextable" by (simp add: hextable_def)
  then have "CHR ''/'' \<notin> set (EncodeToString (Sum256 e img))"
    using set_EncodeToString by blast
  moreover have "length (content_name e img) \<ge> 4" by (simp add: content_name_def)
  then have "content_name e img \<noteq> [] \<and> content_name e img \<noteq> ''.'' \<and>
             content_name e img \<noteq> ''..''"
    by auto
  ultimately show ?thesis by (simp add: plain_name_def content_name_def)
qed

lemma Base_storeImage_path: "Base (Join d (content_name e img)) = content_name e img"
  by (rule Base_Join_plain) (rule plain_content_name)

lemma join_rows_cong:
  "categories w' = categories w \<Longrightarrow> join_rows w' rows = join_rows w rows"
  unfolding join_rows_def by (erule ssubst) (rule refl)

lemma db_consistent_cong:
  assumes "categories w' = categories w" "items w' = items w"
    and "categories_seq w' = categories_seq w" "items_seq w' = items_seq w"
  shows "db_consistent w' = db_consistent w"
  unfolding db_consistent_def assms ..

lemma join_rows_extended:
  assumes "db_consistent w" "set rows \<subseteq> set (items w)"
    and "categories w' = categories w @ [new_category_row w name]"
  shows "join_rows w' rows = join_rows w rows"
proof -
  have "filter (\<lambda>c. cat_id c = category_id i) (categories w') =
        filter (\<lambda>c. cat_id c = category_id i) (categories w)" if "i \<in> set rows" for i
  proof -
    from that assms(2) have "i \<in> set (items w)" by blast
    with assms(1) have "category_id i \<in> cat_id ` set (categories w)"
      by (simp add: db_consistent_def)
    then obtain c :: category_row where "c \<in> set (categories w)" "cat_id c = category_id i"
      by (auto simp: image_iff)
    moreover from this assms(1) have "cat_id c \<le> categories_seq w"
      by (auto simp: db_consistent_def)
    ultimately have "categories_seq w + 1 \<noteq> category_id i" by simp
    then show ?thesis by (simp add: assms(3) new_category_row_def)
  qed
  then show ?thesis by (simp add: join_rows_def cong: map_cong)
qed

lemma Insert_then_join:
  assumes "db_steps_ok e" "\<not> file_step_fails e w" "db_consistent w"
  shows "fst (Insert e item w) = None \<and>
         files (snd (Insert e item w)) = files w \<and>
         join_rows (snd (Insert e item w)) (items (snd (Insert e item w))) =
           join_rows w (items w) @ [inserted_item w (Name item) (Category item) (Image item)]"
proof (cases "Category item \<in> set (map cat_name (categories w))")
  case True
  from assms(1) have e: "select_category_err e = None" "insert_item_err e = None"
    by (simp_all add: db_steps_ok_def)
  let ?w' = "\<lambda>c :: category_row.
    w\<lparr>items := items w @ [new_item_row w item (cat_id c)], items_seq := items_seq w + 1\<rparr>"
  obtain c :: category_row where c: "c \<in> set (categories w)" "cat_name c = Category item"
    and i: "Insert e item w = store_item_list e item (?w' c)"
    using Insert_existing_category [OF e True] by blast
  have "\<not> file_step_fails e (?w' c)"
    using assms(2) file_step_fails_cong [of "?w' c" w e] by simp
  then have 1: "fst (Insert e item w) = None"
    unfolding i by (rule store_item_list_ok)
  have d: "distinct (map cat_id (categories w))"
    using assms(3) by (simp add: db_consistent_def)
  have "join_rows w [new_item_row w item (cat_id c)] =
          [inserted_item w (Name item) (Category item) (Image item)]"
    using join_rows_single [OF d c(1), of "new_item_row w item (cat_id c)"] c(2)
    by (simp add: new_item_row_def inserted_item_def)
  moreover have "join_rows (snd (Insert e item w)) (items (snd (Insert e item w))) =
                 join_rows w (items w @ [new_item_row w item (cat_id c)])"
    unfolding i
    using join_rows_cong [of "snd (store_item_list e item (?w' c))" w]
    by simp
  ultimately show ?thesis using 1 unfolding i by simp
next
  case False
  let ?c = "new_category_row w (Category item)"
  let ?w' = "w\<lparr>categories := categories w @ [?c],
                categories_seq := categories_seq w + 1,
                items := items w @ [new_item_row w item (categories_seq w + 1)],
                items_seq := items_seq w + 1\<rparr>"
  have i: "Insert e item w = store_item_list e item ?w'"
    using Insert_new_category [OF assms(1) False] .
  have "\<not> file_step_fails e ?w'"
    using assms(2) file_step_fails_cong [of ?w' w e] by simp
  then have 1: "fst (Insert e item w) = None"
    unfolding i by (rule store_item_list_ok)
  have "\<forall>c \<in> set (categories w). cat_id c \<noteq> categories_seq w + 1"
    using assms(3) by (fastforce simp: db_consistent_def)
  then have d: "distinct (map cat_id (categories ?w'))"
    using assms(3) by (auto simp: db_consistent_def new_category_row_def)
  have "join_rows ?w' [new_item_row w item (categories_seq w + 1)] =
          [inserted_item w (Name item) (Category item) (Image item)]"
    using join_rows_single [OF d, of ?c "new_item_row w item (categories_seq w + 1)"]
    by (simp add: new_item_row_def new_category_row_def inserted_item_def)
  moreover have "join_rows ?w' (items w) = join_rows w (items w)"
    by (rule join_rows_extended [OF assms(3), of _ _ "Category item"]) simp_all
  moreover have "join_rows (snd (Insert e item w)) (items (snd (Insert e item w))) =
                 join_rows ?w' (items w @ [new_item_row w item (categories_seq w + 1)])"
    unfolding i
    using join_rows_cong [of "snd (store_item_list e item ?w')" ?w']
    by simp
  ultimately show ?thesis using 1 unfolding i by simp
qed

lemma LoadFromDatabase_ok:
  "query_err e = None \<Longrightarrow> scan_err e = None \<Longrightarrow>
   LoadFromDatabase e w = Inr (join_rows w (items w))"
  by (simp add: LoadFromDatabase_def Query_def scan_rows_def)

text \<open>
  C1. For a valid request (name, category, image bytes), with nothing failing, a
  consistent database and a readable JSON file, and no matching item loaded before:
  \<open>AddItem\<close> answers 200, the image is on disk under its content name, and
  \<open>LoadFromDatabase\<close> afterwards returns the items loaded before followed by the new
  item, which is the one item matching the name, the category and the image file name;
  that file name is the hex digest of the image bytes followed by \<open>.jpg\<close>.
\<close>

theorem AddItem_then_LoadFromDatabase:
  assumes "no_faults e" and "db_consistent w" and "\<not> file_step_fails e w"
    and "valid_request r"
    and "LoadFromDatabase e w = Inr before"
    and "matching (FormValue r ''name'') (FormValue r ''category'')
           (content_name e (image_bytes r)) before = []"
  shows "code (fst (AddItem e s NewRecorder r w)) = Some 200 \<and>
         Stat (snd (AddItem e s NewRecorder r w))
           (Join (imgDirPath s) (content_name e (image_bytes r))) \<and>
         LoadFromDatabase e (snd (AddItem e s NewRecorder r w)) =
           Inr (before @
                [inserted_item w (FormValue r ''name'') (FormValue r ''category'')
                   (content_name e (image_bytes r))]) \<and>
         matching (FormValue r ''name'') (FormValue r ''category'')
             (content_name e (image_bytes r))
             (before @
                [inserted_item w (FormValue r ''name'') (FormValue r ''category'')
                   (content_name e (image_bytes r))]) =
           [inserted_item w (FormValue r ''name'') (FormValue r ''category'')
              (content_name e (image_bytes r))] \<and>
         content_name e (image_bytes r) =
           EncodeToString (Sum256 e (image_bytes r)) @ ''.jpg''"
proof -
  let ?img = "content_name e (image_bytes r)"
  let ?item = "\<lparr>ID = 0, Name = FormValue r ''name'', Category = FormValue r ''category'',
                 Image = Base (Join (imgDirPath s) ?img)\<rparr>"
  let ?w0 = "snd (storeImage e s (image_bytes r) w)"
  let ?new = "inserted_item w (FormValue r ''name'') (FormValue r ''category'') ?img"
  from assms(1) have e: "db_steps_ok e" "write_file_err e = None" "query_err e = None"
    "scan_err e = None" "encode_response_err e = None"
    by (simp_all add: no_faults_def db_steps_ok_def)
  have b: "before = join_rows w (items w)"
    using assms(5) LoadFromDatabase_ok [OF e(3,4), of w] by simp
  have f0: "\<not> file_step_fails e ?w0"
    using assms(3) file_step_fails_cong [of ?w0 w e] by simp
  have c0: "db_consistent ?w0"
    using assms(2) db_consistent_cong [of ?w0 w] by simp
  note ins = Insert_then_join [OF e(1) f0 c0, of ?item]
  obtain w2 where w2: "Insert e ?item ?w0 = (None, w2)"
    using ins by (cases "Insert e ?item ?w0") auto
  have add: "AddItem e s NewRecorder r w =
               (Write (JSON (AddItemResponse (''item received: '' @ FormValue r ''name'')))
                  NewRecorder, w2)"
    using w2 e(5) by (simp add: AddItem_valid [OF assms(4) e(2)] Encode_def)
  have img: "Base (Join (imgDirPath s) ?img) = ?img"
    by (rule Base_storeImage_path)
  have "join_rows ?w0 (items ?w0) = before"
    unfolding b using join_rows_cong [of ?w0 w "items w"] by simp
  moreover have "inserted_item ?w0 (Name ?item) (Category ?item) (Image ?item) = ?new"
    by (simp add: inserted_item_def img)
  ultimately have j: "join_rows w2 (items w2) = before @ [?new]"
    using ins w2 by simp
  have 1: "code (fst (AddItem e s NewRecorder r w)) = Some 200"
    unfolding add by simp
  have "fst (storeImage e s (image_bytes r) w) = Inr (Join (imgDirPath s) ?img)"
    using storeImage_succeeds [OF e(2)] .
  then have "storeImage e s (image_bytes r) w = (Inr (Join (imgDirPath s) ?img), ?w0)"
    by (cases "storeImage e s (image_bytes r) w") simp
  then have "Stat ?w0 (Join (imgDirPath s) ?img)"
    using storeImage_result by blast
  moreover have "files w2 = files ?w0" using ins w2 by simp
  ultimately have 2: "Stat (snd (AddItem e s NewRecorder r w)) (Join (imgDirPath s) ?img)"
    unfolding add by (simp add: Stat_def)
  have 3: "LoadFromDatabase e (snd (AddItem e s NewRecorder r w)) = Inr (before @ [?new])"
    unfolding add using LoadFromDatabase_ok [OF e(3,4), of w2] j by simp
  have 4: "matching (FormValue r ''name'') (FormValue r ''category'') ?img (before @ [?new]) =
             [?new]"
    using assms(6) by (simp add: matching_def inserted_item_def)
  show ?thesis using 1 2 3 4 by (simp add: content_name_def)
qed

lemma no_faults_example: "no_faults example_env"
  by (simp add: no_faults_def example_env_def)

lemma image_bytes_iphone_request: "image_bytes iphone_request = example_image"
  by (simp add: image_bytes_def iphone_request_def add_request_def)

lemma form_iphone_request:
  "FormValue iphone_request ''name'' = ''used iPhone 16e''"
  "FormValue iphone_request ''category'' = ''phone''"
  by (simp_all add: FormValue_def iphone_request_def add_request_def lookup_or_empty_def)

theorem AddItem_then_LoadFromDatabase_witness:
  "no_faults example_env \<and> db_consistent empty_world \<and>
   \<not> file_step_fails example_env empty_world \<and> valid_request iphone_request \<and>
   LoadFromDatabase example_env empty_world = Inr [] \<and>
   code (fst (AddItem example_env example_handlers NewRecorder iphone_request empty_world)) =
     Some 200 \<and>
   LoadFromDatabase example_env
     (snd (AddItem example_env example_handlers NewRecorder iphone_request empty_world)) =
     Inr [\<lparr>ID = 1, Name = ''used iPhone 16e'', Category = ''phone'',
           Image = ''010203.jpg''\<rparr>]"
proof -
  have h2: "db_consistent empty_world"
    by (simp add: db_consistent_def empty_world_def)
  have h3: "\<not> file_step_fails example_env empty_world"
    by (simp add: file_step_fails_def example_env_def empty_world_def)
  have h5: "LoadFromDatabase example_env empty_world = Inr []"
    by (simp add: LoadFromDatabase_def Query_def scan_rows_def example_env_def
          empty_world_def)
  have h6: "matching (FormValue iphone_request ''name'') (FormValue iphone_request ''category'')
              (content_name example_env (image_bytes iphone_request)) [] = []"
    by (simp add: matching_def)
  note t = AddItem_then_LoadFromDatabase
             [OF no_faults_example h2 h3 valid_iphone_request h5 h6, of example_handlers]
  have n: "inserted_item empty_world (FormValue iphone_request ''name'')
             (FormValue iphone_request ''category'')
             (content_name example_env (image_bytes iphone_request)) =
           \<lparr>ID = 1, Name = ''used iPhone 16e'', Category = ''phone'', Image = ''010203.jpg''\<rparr>"
    by (simp add: inserted_item_def form_iphone_request image_bytes_iphone_request
          content_name_example empty_world_def)
  from t have "code (fst (AddItem example_env example_handlers NewRecorder iphone_request
                            empty_world)) = Some 200"
    and "LoadFromDatabase example_env
           (snd (AddItem example_env example_handlers NewRecorder iphone_request empty_world)) =
         Inr ([] @ [inserted_item empty_world (FormValue iphone_request ''name'')
             (FormValue iphone_request ''category'')
             (content_name example_env (image_bytes iphone_request))])"
    by blast+
  then show ?thesis
    unfolding n using no_faults_example h2 h3 valid_iphone_request h5 by simp
qed

subsection \<open>The database stays consistent\<close>

text \<open>
  The empty database is consistent, and \<open>Insert\<close> and \<open>AddItem\<close> keep it so, whatever
  fails on the way.
\<close>

lemma db_consistent_empty: "db_consistent empty_world"
  by (simp add: db_consistent_def empty_world_def)

lemma select_Inr_member:
  "select_category_id e name w = Inr cid \<Longrightarrow> cid \<in> set (map cat_id (categories w))"
  by (auto simp: select_category_id_def find_Some_iff split: option.splits)

lemma db_consistent_insert_category:
  assumes "db_consistent w"
  shows "db_consistent (snd (insert_category e name w))"
    and "fst (insert_category e name w) = Inr cid \<Longrightarrow>
         cid \<in> set (map cat_id (categories (snd (insert_category e name w))))"
proof -
  have fresh: "\<forall>c \<in> set (categories w). cat_id c \<noteq> categories_seq w + 1"
    using assms by (fastforce simp: db_consistent_def)
  show "db_consistent (snd (insert_category e name w))"
  proof (cases "insert_category_err e = None \<and> name \<notin> set (map cat_name (categories w))")
    case True
    then have "db_consistent
                 (w\<lparr>categories := categories w @ [new_category_row w name],
                    categories_seq := categories_seq w + 1\<rparr>)"
      using assms fresh by (fastforce simp: db_consistent_def new_category_row_def)
    with True show ?thesis by (simp add: insert_category_new)
  next
    case False
    then have "snd (insert_category e name w) = w"
      by (auto simp: insert_category_def split: option.splits)
    with assms show ?thesis by simp
  qed
  show "fst (insert_category e name w) = Inr cid \<Longrightarrow>
         cid \<in> set (map cat_id (categories (snd (insert_category e name w))))"
    by (auto simp: insert_category_def Let_def split: option.splits if_splits)
qed

lemma db_consistent_insert_item:
  assumes "db_consistent w" "cid \<in> set (map cat_id (categories w))"
  shows "db_consistent (snd (insert_item e name cid img w))"
proof (cases "insert_item_err e")
  case None
  have "\<forall>i \<in> set (items w). item_id i \<noteq> items_seq w + 1"
    using assms(1) by (fastforce simp: db_consistent_def)
  then show ?thesis
    using assms None by (fastforce simp: insert_item_def db_consistent_def Let_def)
next
  case (Some err)
  with assms(1) show ?thesis by (simp add: insert_item_def)
qed

lemma db_consistent_Insert_item_and_file:
  assumes "db_consistent w" "cid \<in> set (map cat_id (categories w))"
  shows "db_consistent (snd (Insert_item_and_file e item cid w))"
proof -
  obtain r w1 where i: "insert_item e (Name item) cid (Image item) w = (r, w1)"
    by (cases "insert_item e (Name item) cid (Image item) w")
  then have c: "db_consistent w1"
    using db_consistent_insert_item [OF assms, of e "Name item" "Image item"] by simp
  show ?thesis
  proof (cases r)
    case None
    have "db_consistent (snd (store_item_list e item w1)) = db_consistent w1"
      by (rule db_consistent_cong) simp_all
    with c i None show ?thesis by (simp add: Insert_item_and_file_def)
  next
    case (Some err)
    with c i show ?thesis by (simp add: Insert_item_and_file_def)
  qed
qed

lemma db_consistent_Insert:
  assumes "db_consistent w"
  shows "db_consistent (snd (Insert e item w))"
proof (cases "select_category_id e (Category item) w")
  case (Inr cid)
  then have "cid \<in> set (map cat_id (categories w))" by (rule select_Inr_member)
  with assms Inr show ?thesis
    by (simp add: Insert_def Insert_after_select_def db_consistent_Insert_item_and_file)
next
  case (Inl err)
  show ?thesis
  proof (cases "err = ErrNoRows")
    case False
    with Inl assms show ?thesis by (simp add: Insert_def Insert_after_select_def)
  next
    case True
    obtain res w1 where ic: "insert_category e (Category item) w = (res, w1)"
      by (cases "insert_category e (Category item) w")
    then have c1: "db_consistent w1"
      using db_consistent_insert_category(1) [OF assms, of e "Category item"] by simp
    show ?thesis
    proof (cases res)
      case (Inl err1)
      with True \<open>select_category_id e (Category item) w = Inl err\<close> ic c1 show ?thesis
        by (simp add: Insert_def Insert_after_select_def)
    next
      case (Inr result)
      then have m: "result \<in> set (map cat_id (categories w1))"
        using db_consistent_insert_category(2) [OF assms, of e "Category item" result] ic
        by simp
      show ?thesis
      proof (cases "last_insert_id_err e")
        case None
        with True \<open>select_category_id e (Category item) w = Inl err\<close> ic Inr show ?thesis
          using db_consistent_Insert_item_and_file [OF c1 m]
          by (simp add: Insert_def Insert_after_select_def LastInsertId_def)
      next
        case (Some err2)
        with True \<open>select_category_id e (Category item) w = Inl err\<close> ic Inr c1 show ?thesis
          by (simp add: Insert_def Insert_after_select_def LastInsertId_def)
      qed
    qed
  qed
qed

lemma db_consistent_AddItem:
  assumes "db_consistent w"
  shows "db_consistent (snd (AddItem e s rw r w))"
proof (cases "parseAddItemRequest r")
  case (Inl err)
  with assms show ?thesis by (simp add: AddItem_def)
next
  case (Inr req)
  obtain x w1 where st: "storeImage e s (req_Image req) w = (x, w1)"
    by (cases "storeImage e s (req_Image req) w")
  have "db_consistent (snd (storeImage e s (req_Image req) w)) = db_consistent w"
    by (rule db_consistent_cong) simp_all
  with assms st have c1: "db_consistent w1" by simp
  show ?thesis
  proof (cases x)
    case (Inl err)
    with Inr st c1 show ?thesis by (simp add: AddItem_def)
  next
    case (Inr fileName)
    let ?item = "\<lparr>ID = 0, Name = req_Name req, Category = req_Category req,
                   Image = Base fileName\<rparr>"
    obtain r2 w2 where ins: "Insert e ?item w1 = (r2, w2)"
      by (cases "Insert e ?item w1")
    then have "db_consistent w2"
      using db_consistent_Insert [OF c1, of e ?item] by simp
    with \<open>parseAddItemRequest r = Inr req\<close> st Inr ins show ?thesis
      by (cases r2) (simp_all add: AddItem_def Let_def split: prod.split option.split)
  qed
qed

end
